theory Spec2Isabelle
  imports Complex_Main
begin

section \<open>Easing and math utilities (App.tsx, lines 26-31)\<close>

text \<open>
  JavaScript numbers are modelled as exact reals: the development is about the
  arithmetic the source writes down, and IEEE-754 rounding is outside the model.
\<close>

definition clamp :: "real \<Rightarrow> real \<Rightarrow> real \<Rightarrow> real" where
  "clamp v lo hi = min hi (max lo v)"

definition lerp :: "real \<Rightarrow> real \<Rightarrow> real \<Rightarrow> real" where
  "lerp a b t = a + (b - a) * t"

definition easeOutCubic :: "real \<Rightarrow> real" where
  "easeOutCubic t = 1 - (1 - t) ^ 3"

section \<open>Timeline constants (App.tsx, lines 44-80)\<close>

definition CAKE_START_Y :: real where "CAKE_START_Y = 10"
definition CAKE_END_Y :: real where "CAKE_END_Y = 0"
definition CAKE_DESCENT_DURATION :: real where "CAKE_DESCENT_DURATION = 3"

definition TABLE_START_Z :: real where "TABLE_START_Z = 30"
definition TABLE_END_Z :: real where "TABLE_END_Z = 0"
definition TABLE_SLIDE_DURATION :: real where "TABLE_SLIDE_DURATION = 7 / 10"
definition TABLE_SLIDE_START :: real where
  "TABLE_SLIDE_START = CAKE_DESCENT_DURATION - TABLE_SLIDE_DURATION - 1 / 10"

definition CANDLE_START_Y :: real where "CANDLE_START_Y = 5"
definition CANDLE_END_Y :: real where "CANDLE_END_Y = 0"
definition CANDLE_DROP_DURATION :: real where "CANDLE_DROP_DURATION = 12 / 10"
definition CANDLE_DROP_START :: real where
  "CANDLE_DROP_START =
     max CAKE_DESCENT_DURATION (TABLE_SLIDE_START + TABLE_SLIDE_DURATION) + 1"

definition totalAnimationTime :: real where
  "totalAnimationTime = CANDLE_DROP_START + CANDLE_DROP_DURATION"

definition BACKGROUND_FADE_DURATION :: real where "BACKGROUND_FADE_DURATION = 1"
definition BACKGROUND_FADE_OFFSET :: real where "BACKGROUND_FADE_OFFSET = 0"
definition BACKGROUND_FADE_END :: real where
  "BACKGROUND_FADE_END =
     max (CANDLE_DROP_START - BACKGROUND_FADE_OFFSET) BACKGROUND_FADE_DURATION"
definition BACKGROUND_FADE_START :: real where
  "BACKGROUND_FADE_START = max (BACKGROUND_FADE_END - BACKGROUND_FADE_DURATION) 0"

text \<open>The deadband of the two emit functions (the literal 0.005 of lines 150 and 158).\<close>

definition DEADBAND :: real where "DEADBAND = 5 / 1000"

section \<open>Scene objects and controller state (App.tsx, lines 133-141)\<close>

text \<open>The x, y and z of a three.js position or rotation.\<close>

record vec3 =
  vx :: real
  vy :: real
  vz :: real

text \<open>The part of a three.js group that the frame callback reads or writes.\<close>

record group =
  position :: vec3
  rotation :: vec3
  visible :: bool

text \<open>
  Every call the frame callback makes that is visible from outside: the two emit
  functions with the value they are given, the two consumer callbacks with the value
  forwarded, and the completion callback. The three callbacks are optional props
  called through \<open>?.\<close>; \<open>App\<close> always passes them (lines 875-877), and an entry
  of the trace stands for the call site being reached. The effect of lines 143-146, which
  hands the stored values to the consumers when the callbacks are first passed, runs
  outside the frame callback and is not part of the trace.
\<close>

datatype call =
    EmitBackgroundOpacity real
  | EmitEnvironmentProgress real
  | OnBackgroundFadeChange real
  | OnEnvironmentProgressChange real
  | OnAnimationComplete

text \<open>
  The refs of \<open>AnimatedScene\<close>. A group ref is \<open>None\<close> while the group is not
  mounted. \<open>calls\<close> is the trace of calls made so far, oldest first.
\<close>

record controller =
  cakeGroup :: "group option"
  tableGroup :: "group option"
  candleGroup :: "group option"
  animationStartRef :: "real option"
  hasPrimedRef :: bool
  hasCompletedRef :: bool
  completionNotifiedRef :: bool
  backgroundOpacityRef :: real
  environmentProgressRef :: real
  calls :: "call list"

text \<open>Appends one call to the trace.\<close>

definition logCall :: "call \<Rightarrow> controller \<Rightarrow> controller" where
  "logCall c s = s\<lparr>calls := calls s @ [c]\<rparr>"

section \<open>Deadband emission (App.tsx, lines 148-162)\<close>

definition emitBackgroundOpacity :: "real \<Rightarrow> controller \<Rightarrow> controller" where
  "emitBackgroundOpacity v s0 =
     (let s = logCall (EmitBackgroundOpacity v) s0;
          clamped = clamp v 0 1
      in if \<bar>clamped - backgroundOpacityRef s\<bar> > DEADBAND
         then logCall (OnBackgroundFadeChange clamped) (s\<lparr>backgroundOpacityRef := clamped\<rparr>)
         else s)"

definition emitEnvironmentProgress :: "real \<Rightarrow> controller \<Rightarrow> controller" where
  "emitEnvironmentProgress v s0 =
     (let s = logCall (EmitEnvironmentProgress v) s0;
          clamped = clamp v 0 1
      in if \<bar>clamped - environmentProgressRef s\<bar> > DEADBAND
         then logCall (OnEnvironmentProgressChange clamped) (s\<lparr>environmentProgressRef := clamped\<rparr>)
         else s)"

section \<open>The frame callback (App.tsx, lines 164-277)\<close>

text \<open>
  A write to one of the three groups. The frame callback only writes after its guard has
  found all three mounted.
\<close>

definition setCake :: "(group \<Rightarrow> group) \<Rightarrow> controller \<Rightarrow> controller" where
  "setCake f s = s\<lparr>cakeGroup := map_option f (cakeGroup s)\<rparr>"

definition setTable :: "(group \<Rightarrow> group) \<Rightarrow> controller \<Rightarrow> controller" where
  "setTable f s = s\<lparr>tableGroup := map_option f (tableGroup s)\<rparr>"

definition setCandle :: "(group \<Rightarrow> group) \<Rightarrow> controller \<Rightarrow> controller" where
  "setCandle f s = s\<lparr>candleGroup := map_option f (candleGroup s)\<rparr>"

text \<open>The three components written by \<open>set(x, y, z)\<close>.\<close>

definition vec :: "real \<Rightarrow> real \<Rightarrow> real \<Rightarrow> vec3" where
  "vec a b c = \<lparr>vx = a, vy = b, vz = c\<rparr>"

text \<open>Lines 173-181: the one-time priming of the start pose.\<close>

definition primeScene :: "controller \<Rightarrow> controller" where
  "primeScene s =
     (if \<not> hasPrimedRef s
      then (setCandle (\<lambda>g. g\<lparr>position := vec 0 CANDLE_START_Y 0, visible := False\<rparr>)
           (setTable (\<lambda>g. g\<lparr>position := vec 0 0 TABLE_START_Z, rotation := vec 0 0 0\<rparr>)
           (setCake (\<lambda>g. g\<lparr>position := vec 0 CAKE_START_Y 0, rotation := vec 0 0 0\<rparr>) s)))
           \<lparr>hasPrimedRef := True\<rparr>
      else s)"

text \<open>Lines 183-190: the branch taken while not playing.\<close>

definition pauseBranch :: "controller \<Rightarrow> controller" where
  "pauseBranch s =
     (emitEnvironmentProgress 0 (emitBackgroundOpacity 1 s))
       \<lparr>animationStartRef := None, hasCompletedRef := False, completionNotifiedRef := False\<rparr>"

text \<open>Lines 195-198 and 272-275: the guarded completion callback.\<close>

definition notifyCompletion :: "controller \<Rightarrow> controller" where
  "notifyCompletion s =
     (if \<not> completionNotifiedRef s
      then logCall OnAnimationComplete (s\<lparr>completionNotifiedRef := True\<rparr>)
      else s)"

text \<open>Lines 192-200: the branch taken once the animation has completed.\<close>

definition completedBranch :: "controller \<Rightarrow> controller" where
  "completedBranch s =
     notifyCompletion (emitEnvironmentProgress 1 (emitBackgroundOpacity 0 s))"

text \<open>Lines 209-216: the cake descends and turns.\<close>

definition cakeSegment :: "real \<Rightarrow> controller \<Rightarrow> controller" where
  "cakeSegment clampedElapsed s =
     (let cakeProgress = clamp (clampedElapsed / CAKE_DESCENT_DURATION) 0 1;
          cakeEase = easeOutCubic cakeProgress
      in setCake (\<lambda>g. g\<lparr>position := (position g)
                           \<lparr>vy := lerp CAKE_START_Y CAKE_END_Y cakeEase, vx := 0, vz := 0\<rparr>,
                        rotation := (rotation g)
                           \<lparr>vy := cakeEase * pi * 2, vx := 0, vz := 0\<rparr>\<rparr>) s)"

text \<open>Lines 218-229: the table slides in.\<close>

definition tableSegment :: "real \<Rightarrow> controller \<Rightarrow> controller" where
  "tableSegment clampedElapsed s =
     (let tableZ =
            (if clampedElapsed \<ge> TABLE_SLIDE_START
             then let tableProgress =
                        clamp ((clampedElapsed - TABLE_SLIDE_START) / TABLE_SLIDE_DURATION) 0 1;
                      tableEase = easeOutCubic tableProgress
                  in lerp TABLE_START_Z TABLE_END_Z tableEase
             else TABLE_START_Z)
      in setTable (\<lambda>g. g\<lparr>position := vec 0 0 tableZ, rotation := vec 0 0 0\<rparr>) s)"

text \<open>Lines 231-245: the candle drops.\<close>

definition candleSegment :: "real \<Rightarrow> controller \<Rightarrow> controller" where
  "candleSegment clampedElapsed s =
     (if clampedElapsed \<ge> CANDLE_DROP_START
      then let candleProgress =
                 clamp ((clampedElapsed - CANDLE_DROP_START) / CANDLE_DROP_DURATION) 0 1;
               candleEase = easeOutCubic candleProgress
           in setCandle (\<lambda>g. (if \<not> visible g then g\<lparr>visible := True\<rparr> else g)
                   \<lparr>position := (position g)
                      \<lparr>vy := lerp CANDLE_START_Y CANDLE_END_Y candleEase\<rparr>\<rparr>) s
      else setCandle (\<lambda>g. g\<lparr>visible := False, position := vec 0 CANDLE_START_Y 0\<rparr>) s)"

text \<open>Lines 247-260: the background fade and the environment reveal.\<close>

definition fadeSegment :: "real \<Rightarrow> controller \<Rightarrow> controller" where
  "fadeSegment clampedElapsed s =
     (if clampedElapsed < BACKGROUND_FADE_START
      then emitEnvironmentProgress 0 (emitBackgroundOpacity 1 s)
      else let fadeProgress =
                 clamp ((clampedElapsed - BACKGROUND_FADE_START) / BACKGROUND_FADE_DURATION) 0 1;
               eased = easeOutCubic fadeProgress;
               backgroundOpacity = 1 - eased
           in emitEnvironmentProgress (1 - backgroundOpacity)
                (emitBackgroundOpacity backgroundOpacity s))"

text \<open>Lines 262-276: the terminal check.\<close>

definition terminalCheck :: "real \<Rightarrow> controller \<Rightarrow> controller" where
  "terminalCheck clampedElapsed s =
     (let animationDone = (clampedElapsed \<ge> totalAnimationTime)
      in if animationDone
         then notifyCompletion
                ((emitEnvironmentProgress 1 (emitBackgroundOpacity 0
                   (setCandle (\<lambda>g. g\<lparr>position := vec 0 CANDLE_END_Y 0, visible := True\<rparr>)
                   (setTable (\<lambda>g. g\<lparr>position := vec 0 0 TABLE_END_Z\<rparr>)
                   (setCake (\<lambda>g. g\<lparr>position := vec 0 CAKE_END_Y 0, rotation := vec 0 0 0\<rparr>)
                      s)))))
                 \<lparr>hasCompletedRef := True\<rparr>)
         else s)"

text \<open>Lines 202-207: the animation clock starts at the first playing tick.\<close>

definition startClock :: "real \<Rightarrow> controller \<Rightarrow> controller" where
  "startClock elapsedTime s =
     (if animationStartRef s = None then s\<lparr>animationStartRef := Some elapsedTime\<rparr> else s)"

definition clampedElapsedAt :: "real \<Rightarrow> controller \<Rightarrow> real" where
  "clampedElapsedAt elapsedTime s =
     (let start = (case animationStartRef s of None \<Rightarrow> elapsedTime | Some t \<Rightarrow> t);
          elapsed = elapsedTime - start
      in clamp elapsed 0 totalAnimationTime)"

text \<open>Lines 202-276: a playing tick that has not completed yet.\<close>

definition playingBranch :: "real \<Rightarrow> controller \<Rightarrow> controller" where
  "playingBranch elapsedTime s0 =
     (let s = startClock elapsedTime s0;
          clampedElapsed = clampedElapsedAt elapsedTime s
      in terminalCheck clampedElapsed
           (fadeSegment clampedElapsed
           (candleSegment clampedElapsed
           (tableSegment clampedElapsed
           (cakeSegment clampedElapsed s)))))"

text \<open>
  The frame callback: \<open>isPlaying\<close> is the prop of the render the callback closes
  over, \<open>elapsedTime\<close> is \<open>clock.elapsedTime\<close>. With a group missing the
  callback returns at once (lines 169-171).
\<close>

definition useFrame :: "bool \<Rightarrow> real \<Rightarrow> controller \<Rightarrow> controller" where
  "useFrame isPlaying elapsedTime s0 =
     (if cakeGroup s0 = None \<or> tableGroup s0 = None \<or> candleGroup s0 = None then s0
      else let s = primeScene s0
           in if \<not> isPlaying then pauseBranch s
              else if hasCompletedRef s then completedBranch s
              else playingBranch elapsedTime s)"

section \<open>Runs, traces and the reachable-state invariant\<close>

text \<open>
  The refs as \<open>useRef\<close> initialises them (lines 136-141), with the three groups
  mounted in the pose three.js gives a new object.
\<close>

definition defaultGroup :: group where
  "defaultGroup = \<lparr>position = vec 0 0 0, rotation = vec 0 0 0, visible = True\<rparr>"

definition initialController :: controller where
  "initialController =
     \<lparr>cakeGroup = Some defaultGroup, tableGroup = Some defaultGroup,
      candleGroup = Some defaultGroup, animationStartRef = None,
      hasPrimedRef = False, hasCompletedRef = False, completionNotifiedRef = False,
      backgroundOpacityRef = 1, environmentProgressRef = 0, calls = []\<rparr>"

text \<open>All three groups are mounted: the frame callback passes its guard.\<close>

definition mounted :: "controller \<Rightarrow> bool" where
  "mounted s = (cakeGroup s \<noteq> None \<and> tableGroup s \<noteq> None \<and> candleGroup s \<noteq> None)"

text \<open>
  What every state reached by frames from the initial refs satisfies (lemmas
  \<open>consistent_initial\<close> and \<open>consistent_runFrames\<close> below): the two completion
  flags agree, the stored signals are complementary, and a completed controller is
  primed and has its stored opacity within the deadband of 0.
\<close>

definition consistent :: "controller \<Rightarrow> bool" where
  "consistent s =
     (completionNotifiedRef s = hasCompletedRef s \<and>
      backgroundOpacityRef s + environmentProgressRef s = 1 \<and>
      (hasCompletedRef s \<longrightarrow> hasPrimedRef s \<and> \<bar>backgroundOpacityRef s\<bar> \<le> DEADBAND))"

text \<open>A run of frames, each with its \<open>isPlaying\<close> and its clock reading.\<close>

definition runFrames :: "(bool \<times> real) list \<Rightarrow> controller \<Rightarrow> controller" where
  "runFrames ticks s = foldl (\<lambda>st (isPlaying, elapsedTime). useFrame isPlaying elapsedTime st) s ticks"

text \<open>A run of playing frames: one continuous play session.\<close>

definition playFrames :: "real list \<Rightarrow> controller \<Rightarrow> controller" where
  "playFrames clocks s = foldl (\<lambda>st elapsedTime. useFrame True elapsedTime st) s clocks"

text \<open>The calls one frame adds to the trace.\<close>

definition tickCalls :: "bool \<Rightarrow> real \<Rightarrow> controller \<Rightarrow> call list" where
  "tickCalls isPlaying elapsedTime s =
     drop (length (calls s)) (calls (useFrame isPlaying elapsedTime s))"

text \<open>The entries of the trace that are calls of an emit function.\<close>

fun isEmit :: "call \<Rightarrow> bool" where
  "isEmit (EmitBackgroundOpacity v) = True"
| "isEmit (EmitEnvironmentProgress v) = True"
| "isEmit c = False"

text \<open>The calls of the two emit functions in a trace, in order, with their values.\<close>

definition emitted :: "call list \<Rightarrow> call list" where
  "emitted cs = filter isEmit cs"

text \<open>How often the completion callback was called.\<close>

definition completions :: "call list \<Rightarrow> nat" where
  "completions cs = length (filter (\<lambda>c. c = OnAnimationComplete) cs)"

text \<open>The two emits of a complementary pair, as one update of the controller.\<close>

definition emitPair :: "real \<Rightarrow> controller \<Rightarrow> controller" where
  "emitPair v s = emitEnvironmentProgress (1 - v) (emitBackgroundOpacity v s)"

text \<open>
  The opacity the fade segment hands to \<open>emitBackgroundOpacity\<close> at a clamped
  elapsed time (lines 247-258); the progress it hands on is one minus that.
\<close>

definition fadeOpacity :: "real \<Rightarrow> real" where
  "fadeOpacity clampedElapsed =
     (if clampedElapsed < BACKGROUND_FADE_START then 1
      else 1 - easeOutCubic
             (clamp ((clampedElapsed - BACKGROUND_FADE_START) / BACKGROUND_FADE_DURATION) 0 1))"

text \<open>The scene transforms: everything the frame callback may write on the groups.\<close>

definition transforms :: "controller \<Rightarrow> group option \<times> group option \<times> group option" where
  "transforms s = (cakeGroup s, tableGroup s, candleGroup s)"

section \<open>The typed-text intro (App.tsx, lines 551-625)\<close>

text \<open>
  The state of \<open>App\<close> that the typing effect reads and sets. The source types the
  constant \<open>TYPED_LINES\<close>; the model takes the lines as a parameter, each line a
  list of characters whose length is what \<open>.length\<close> counts.
  \<open>typingSounds\<close> counts the calls of \<open>playTypingSound\<close>.
\<close>

record typing =
  hasStarted :: bool
  currentLineIndex :: nat
  currentCharIndex :: nat
  sceneStarted :: bool
  typingSounds :: nat

definition typingComplete :: "string list \<Rightarrow> typing \<Rightarrow> bool" where
  "typingComplete lines st = (currentLineIndex st \<ge> length lines)"

text \<open>Lines 605-611: the loop over zero-length lines.\<close>

function nextLine :: "string list \<Rightarrow> nat \<Rightarrow> nat" where
  "nextLine lines nextLineIndex =
     (if nextLineIndex < length lines \<and> length (lines ! nextLineIndex) = 0
      then nextLine lines (nextLineIndex + 1)
      else nextLineIndex)"
  by pat_completeness auto
termination
  by (relation "measure (\<lambda>(lines, n). length lines - n)") auto

text \<open>Lines 598-615: what the typing timer does when it fires.\<close>

definition typingTimeout :: "string list \<Rightarrow> typing \<Rightarrow> typing" where
  "typingTimeout lines st =
     (let currentLine =
            (if currentLineIndex st < length lines then lines ! currentLineIndex st else [])
      in if currentCharIndex st < length currentLine
         then st\<lparr>typingSounds := typingSounds st + 1,
                 currentCharIndex := currentCharIndex st + 1\<rparr>
         else st\<lparr>currentLineIndex := nextLine lines (currentLineIndex st + 1),
                 currentCharIndex := 0\<rparr>)"

text \<open>
  Lines 576-617: one round of the typing effect with its timer fired. Before the start
  the indices are reset; once typing is complete the only timer is the one that starts
  the scene.
\<close>

definition typingStep :: "string list \<Rightarrow> typing \<Rightarrow> typing" where
  "typingStep lines st =
     (if \<not> hasStarted st
      then st\<lparr>currentLineIndex := 0, currentCharIndex := 0, sceneStarted := False\<rparr>
      else if typingComplete lines st
      then (if \<not> sceneStarted st then st\<lparr>sceneStarted := True\<rparr> else st)
      else typingTimeout lines st)"

text \<open>Lines 552-566: the text shown for each line.\<close>

definition typedLines :: "string list \<Rightarrow> typing \<Rightarrow> string list" where
  "typedLines lines st =
     (if length lines = 0 then [[]]
      else map (\<lambda>index.
             if typingComplete lines st \<or> index < currentLineIndex st then lines ! index
             else if index = currentLineIndex st
             then take (min (currentCharIndex st) (length (lines ! index))) (lines ! index)
             else [])
           [0 ..< length lines])"

text \<open>Lines 568-574: the line that carries the cursor.\<close>

definition cursorTargetIndex :: "string list \<Rightarrow> typing \<Rightarrow> nat" where
  "cursorTargetIndex lines st =
     (let n = length (typedLines lines st);
          cursorLineIndex = (if typingComplete lines st then n - 1 else currentLineIndex st)
      in min cursorLineIndex (n - 1))"

text \<open>A step function applied \<open>n\<close> times: \<open>n\<close> firings of a timer.\<close>

fun iterate :: "nat \<Rightarrow> ('a \<Rightarrow> 'a) \<Rightarrow> 'a \<Rightarrow> 'a" where
  "iterate 0 f x = x"
| "iterate (Suc n) f x = iterate n f (f x)"

section \<open>Constants, emission and the invariant of reachable states\<close>

lemmas constant_defs =
  CAKE_START_Y_def CAKE_END_Y_def CAKE_DESCENT_DURATION_def
  TABLE_START_Z_def TABLE_END_Z_def TABLE_SLIDE_DURATION_def TABLE_SLIDE_START_def
  CANDLE_START_Y_def CANDLE_END_Y_def CANDLE_DROP_DURATION_def CANDLE_DROP_START_def
  totalAnimationTime_def BACKGROUND_FADE_DURATION_def BACKGROUND_FADE_OFFSET_def
  BACKGROUND_FADE_END_def BACKGROUND_FADE_START_def

lemma constant_values:
  "TABLE_SLIDE_START = 22 / 10" "CANDLE_DROP_START = 4" "totalAnimationTime = 52 / 10"
  "BACKGROUND_FADE_END = 4" "BACKGROUND_FADE_START = 3"
  by (simp_all add: constant_defs)

lemma emitBackgroundOpacity_eq:
  "emitBackgroundOpacity v s =
     s\<lparr>backgroundOpacityRef :=
         (if DEADBAND < \<bar>clamp v 0 1 - backgroundOpacityRef s\<bar> then clamp v 0 1
          else backgroundOpacityRef s),
       calls := calls s @ EmitBackgroundOpacity v #
         (if DEADBAND < \<bar>clamp v 0 1 - backgroundOpacityRef s\<bar>
          then [OnBackgroundFadeChange (clamp v 0 1)] else [])\<rparr>"
  by (simp add: emitBackgroundOpacity_def logCall_def Let_def)

lemma emitEnvironmentProgress_eq:
  "emitEnvironmentProgress v s =
     s\<lparr>environmentProgressRef :=
         (if DEADBAND < \<bar>clamp v 0 1 - environmentProgressRef s\<bar> then clamp v 0 1
          else environmentProgressRef s),
       calls := calls s @ EmitEnvironmentProgress v #
         (if DEADBAND < \<bar>clamp v 0 1 - environmentProgressRef s\<bar>
          then [OnEnvironmentProgressChange (clamp v 0 1)] else [])\<rparr>"
  by (simp add: emitEnvironmentProgress_def logCall_def Let_def)

lemma clamp_complement: "clamp (1 - v) 0 1 = 1 - clamp v 0 1"
  by (simp add: clamp_def min_def max_def)

lemma emitPair_eq:
  assumes "backgroundOpacityRef s + environmentProgressRef s = 1"
  shows "emitPair v s =
     (if DEADBAND < \<bar>clamp v 0 1 - backgroundOpacityRef s\<bar>
      then s\<lparr>backgroundOpacityRef := clamp v 0 1,
             environmentProgressRef := 1 - clamp v 0 1,
             calls := calls s @ [EmitBackgroundOpacity v, OnBackgroundFadeChange (clamp v 0 1),
                      EmitEnvironmentProgress (1 - v), OnEnvironmentProgressChange (1 - clamp v 0 1)]\<rparr>
      else s\<lparr>calls := calls s @ [EmitBackgroundOpacity v, EmitEnvironmentProgress (1 - v)]\<rparr>)"
proof -
  have env: "environmentProgressRef s = 1 - backgroundOpacityRef s"
    using assms by simp
  have "\<bar>1 - clamp v 0 1 - (1 - backgroundOpacityRef s)\<bar> = \<bar>clamp v 0 1 - backgroundOpacityRef s\<bar>"
    by simp
  then show ?thesis
    by (simp add: emitPair_def emitBackgroundOpacity_eq emitEnvironmentProgress_eq
        clamp_complement env)
qed


lemmas segment_defs =
  setCake_def setTable_def setCandle_def primeScene_def cakeSegment_def tableSegment_def
  candleSegment_def startClock_def

lemma pauseBranch_eq:
  "pauseBranch s = (emitPair 1 s)
       \<lparr>animationStartRef := None, hasCompletedRef := False, completionNotifiedRef := False\<rparr>"
  by (simp add: pauseBranch_def emitPair_def)

lemma completedBranch_eq: "completedBranch s = notifyCompletion (emitPair 0 s)"
  by (simp add: completedBranch_def emitPair_def)

lemma fadeSegment_eq: "fadeSegment e s = emitPair (fadeOpacity e) s"
  by (simp add: fadeSegment_def fadeOpacity_def emitPair_def Let_def)

lemma terminalCheck_eq:
  "terminalCheck e s =
     (if e \<ge> totalAnimationTime
      then notifyCompletion
             ((emitPair 0
                (setCandle (\<lambda>g. g\<lparr>position := vec 0 CANDLE_END_Y 0, visible := True\<rparr>)
                (setTable (\<lambda>g. g\<lparr>position := vec 0 0 TABLE_END_Z\<rparr>)
                (setCake (\<lambda>g. g\<lparr>position := vec 0 CAKE_END_Y 0, rotation := vec 0 0 0\<rparr>) s))))
              \<lparr>hasCompletedRef := True\<rparr>)
      else s)"
  by (simp add: terminalCheck_def emitPair_def Let_def)

lemma emitPair_sum:
  "backgroundOpacityRef s + environmentProgressRef s = 1 \<Longrightarrow>
   backgroundOpacityRef (emitPair v s) + environmentProgressRef (emitPair v s) = 1"
  by (simp add: emitPair_eq)

lemma emitPair_near:
  "backgroundOpacityRef s + environmentProgressRef s = 1 \<Longrightarrow>
   \<bar>clamp v 0 1 - backgroundOpacityRef (emitPair v s)\<bar> \<le> DEADBAND"
  by (simp add: emitPair_eq DEADBAND_def)

lemma emitPair_fields [simp]:
  "cakeGroup (emitPair v s) = cakeGroup s"
  "tableGroup (emitPair v s) = tableGroup s"
  "candleGroup (emitPair v s) = candleGroup s"
  "animationStartRef (emitPair v s) = animationStartRef s"
  "hasPrimedRef (emitPair v s) = hasPrimedRef s"
  "hasCompletedRef (emitPair v s) = hasCompletedRef s"
  "completionNotifiedRef (emitPair v s) = completionNotifiedRef s"
  by (simp_all add: emitPair_def emitBackgroundOpacity_eq emitEnvironmentProgress_eq)


lemma segments_refs [simp]:
  "backgroundOpacityRef (primeScene s) = backgroundOpacityRef s"
  "environmentProgressRef (primeScene s) = environmentProgressRef s"
  "hasCompletedRef (primeScene s) = hasCompletedRef s"
  "completionNotifiedRef (primeScene s) = completionNotifiedRef s"
  "animationStartRef (primeScene s) = animationStartRef s"
  "calls (primeScene s) = calls s"
  "backgroundOpacityRef (startClock c s) = backgroundOpacityRef s"
  "environmentProgressRef (startClock c s) = environmentProgressRef s"
  "hasCompletedRef (startClock c s) = hasCompletedRef s"
  "completionNotifiedRef (startClock c s) = completionNotifiedRef s"
  "calls (startClock c s) = calls s"
  "backgroundOpacityRef (cakeSegment e s) = backgroundOpacityRef s"
  "environmentProgressRef (cakeSegment e s) = environmentProgressRef s"
  "hasCompletedRef (cakeSegment e s) = hasCompletedRef s"
  "completionNotifiedRef (cakeSegment e s) = completionNotifiedRef s"
  "animationStartRef (cakeSegment e s) = animationStartRef s"
  "calls (cakeSegment e s) = calls s"
  "backgroundOpacityRef (tableSegment e s) = backgroundOpacityRef s"
  "environmentProgressRef (tableSegment e s) = environmentProgressRef s"
  "hasCompletedRef (tableSegment e s) = hasCompletedRef s"
  "completionNotifiedRef (tableSegment e s) = completionNotifiedRef s"
  "animationStartRef (tableSegment e s) = animationStartRef s"
  "calls (tableSegment e s) = calls s"
  "backgroundOpacityRef (candleSegment e s) = backgroundOpacityRef s"
  "environmentProgressRef (candleSegment e s) = environmentProgressRef s"
  "hasCompletedRef (candleSegment e s) = hasCompletedRef s"
  "completionNotifiedRef (candleSegment e s) = completionNotifiedRef s"
  "animationStartRef (candleSegment e s) = animationStartRef s"
  "calls (candleSegment e s) = calls s"
  by (simp_all add: segment_defs Let_def)

lemma segments_primed [simp]:
  "hasPrimedRef (primeScene s)"
  "hasPrimedRef (startClock c s) = hasPrimedRef s"
  "hasPrimedRef (cakeSegment e s) = hasPrimedRef s"
  "hasPrimedRef (tableSegment e s) = hasPrimedRef s"
  "hasPrimedRef (candleSegment e s) = hasPrimedRef s"
  by (simp_all add: segment_defs Let_def)

lemma consistent_pauseBranch:
  "consistent s \<Longrightarrow> consistent (pauseBranch s)"
  by (simp add: consistent_def pauseBranch_eq emitPair_sum)

lemma consistent_completedBranch:
  "consistent s \<Longrightarrow> hasCompletedRef s \<Longrightarrow> consistent (completedBranch s)"
  using emitPair_near [of s 0]
  by (simp add: consistent_def completedBranch_eq notifyCompletion_def logCall_def
      emitPair_sum clamp_def)

lemma consistent_playingBranch:
  assumes "consistent s" "\<not> hasCompletedRef s" "hasPrimedRef s"
  shows "consistent (playingBranch c s)"
proof -
  define e where "e = clampedElapsedAt c (startClock c s)"
  define s1 where "s1 = candleSegment e (tableSegment e (cakeSegment e (startClock c s)))"
  define s2 where "s2 = fadeSegment e s1"
  have s1: "backgroundOpacityRef s1 + environmentProgressRef s1 = 1"
    "\<not> hasCompletedRef s1" "\<not> completionNotifiedRef s1" "hasPrimedRef s1"
    using assms by (simp_all add: s1_def consistent_def)
  have s2: "backgroundOpacityRef s2 + environmentProgressRef s2 = 1"
    "\<not> hasCompletedRef s2" "\<not> completionNotifiedRef s2" "hasPrimedRef s2"
    using s1 by (simp_all add: s2_def fadeSegment_eq emitPair_sum)
  have pb: "playingBranch c s = terminalCheck e s2"
    by (simp add: playingBranch_def Let_def e_def s1_def s2_def)
  show ?thesis
  proof (cases "e \<ge> totalAnimationTime")
    case False
    then show ?thesis using s2 by (simp add: pb terminalCheck_eq consistent_def)
  next
    case True
    define s3 where "s3 = setCandle (\<lambda>g. g\<lparr>position := vec 0 CANDLE_END_Y 0, visible := True\<rparr>)
                (setTable (\<lambda>g. g\<lparr>position := vec 0 0 TABLE_END_Z\<rparr>)
                (setCake (\<lambda>g. g\<lparr>position := vec 0 CAKE_END_Y 0, rotation := vec 0 0 0\<rparr>) s2))"
    have s3: "backgroundOpacityRef s3 + environmentProgressRef s3 = 1"
      "\<not> completionNotifiedRef s3" "hasPrimedRef s3"
      using s2 by (simp_all add: s3_def segment_defs)
    have tc: "terminalCheck e s2 = notifyCompletion ((emitPair 0 s3)\<lparr>hasCompletedRef := True\<rparr>)"
      using True by (simp add: terminalCheck_eq s3_def)
    show ?thesis
      using s3 emitPair_sum [OF s3(1), of 0] emitPair_near [OF s3(1), of 0]
      by (simp add: pb tc consistent_def notifyCompletion_def logCall_def clamp_def)
  qed
qed

lemma consistent_useFrame:
  assumes "consistent s"
  shows "consistent (useFrame isPlaying elapsedTime s)"
proof -
  have p: "consistent (primeScene s)" "hasPrimedRef (primeScene s)"
    using assms by (simp_all add: consistent_def)
  show ?thesis
    using assms p consistent_pauseBranch [OF p(1)] consistent_completedBranch [OF p(1)]
      consistent_playingBranch [OF p(1) _ p(2)]
    by (simp add: useFrame_def Let_def)
qed

lemma consistent_runFrames:
  "consistent s \<Longrightarrow> consistent (runFrames ticks s)"
proof (induction ticks arbitrary: s)
  case Nil
  then show ?case by (simp add: runFrames_def)
next
  case (Cons tick ticks)
  obtain isPlaying c where tick: "tick = (isPlaying, c)"
    by (cases tick)
  have "consistent (useFrame isPlaying c s)"
    using Cons.prems by (rule consistent_useFrame)
  from Cons.IH [OF this] show ?case
    by (simp add: runFrames_def tick)
qed

lemma consistent_initial:
  "consistent (initialController\<lparr>cakeGroup := cake, tableGroup := table, candleGroup := candle\<rparr>)"
  by (simp add: consistent_def initialController_def)

lemma useFrame_mounted:
  assumes "mounted s"
  shows "useFrame isPlaying c s =
     (if \<not> isPlaying then pauseBranch (primeScene s)
      else if hasCompletedRef s then completedBranch (primeScene s)
      else playingBranch c (primeScene s))"
  using assms by (auto simp add: useFrame_def mounted_def Let_def)

lemma primeScene_primed: "hasPrimedRef s \<Longrightarrow> primeScene s = s"
  by (simp add: primeScene_def)

lemma completed_playing_frame:
  assumes "mounted s" "consistent s" "hasCompletedRef s"
  shows "useFrame True c s = s\<lparr>calls := calls s @ [EmitBackgroundOpacity 0, EmitEnvironmentProgress 1]\<rparr>"
proof -
  have sum: "backgroundOpacityRef s + environmentProgressRef s = 1"
    and near: "\<bar>backgroundOpacityRef s\<bar> \<le> DEADBAND"
    and flags: "completionNotifiedRef s" "hasPrimedRef s"
    using assms by (simp_all add: consistent_def)
  have "useFrame True c s = completedBranch s"
    using assms(1,3) flags by (simp add: useFrame_mounted primeScene_primed)
  also have "\<dots> = s\<lparr>calls := calls s @ [EmitBackgroundOpacity 0, EmitEnvironmentProgress 1]\<rparr>"
    using near flags
    by (simp add: completedBranch_eq emitPair_eq [OF sum] notifyCompletion_def clamp_def)
  finally show ?thesis .
qed

lemma completed_playFrames:
  assumes "mounted s" "consistent s" "hasCompletedRef s"
  shows "playFrames clocks s =
     s\<lparr>calls := calls s @ concat (replicate (length clocks) [EmitBackgroundOpacity 0, EmitEnvironmentProgress 1])\<rparr>"
  using assms
proof (induction clocks arbitrary: s)
  case Nil
  then show ?case by (simp add: playFrames_def)
next
  case (Cons c clocks)
  let ?s1 = "s\<lparr>calls := calls s @ [EmitBackgroundOpacity 0, EmitEnvironmentProgress 1]\<rparr>"
  have step: "useFrame True c s = ?s1"
    using Cons.prems by (rule completed_playing_frame)
  have "mounted ?s1" "consistent ?s1" "hasCompletedRef ?s1"
    using Cons.prems by (simp_all add: mounted_def consistent_def)
  from Cons.IH [OF this]
  show ?case
    by (simp add: playFrames_def step)
qed


section \<open>Evaluating frames on concrete controllers\<close>

lemmas frame_eval =
  useFrame_def playingBranch_def clampedElapsedAt_def fadeSegment_def terminalCheck_def
  pauseBranch_def completedBranch_def segment_defs emitBackgroundOpacity_eq
  emitEnvironmentProgress_eq notifyCompletion_def logCall_def Let_def clamp_def
  easeOutCubic_def lerp_def vec_def DEADBAND_def constant_values
  CAKE_START_Y_def CAKE_END_Y_def CAKE_DESCENT_DURATION_def
  TABLE_START_Z_def TABLE_END_Z_def TABLE_SLIDE_DURATION_def
  CANDLE_START_Y_def CANDLE_END_Y_def CANDLE_DROP_DURATION_def
  BACKGROUND_FADE_DURATION_def

lemma frame1:
  "useFrame True 0 initialController =
     \<lparr>cakeGroup = Some \<lparr>position = vec 0 10 0, rotation = vec 0 0 0, visible = True\<rparr>,
      tableGroup = Some \<lparr>position = vec 0 0 30, rotation = vec 0 0 0, visible = True\<rparr>,
      candleGroup = Some \<lparr>position = vec 0 5 0, rotation = vec 0 0 0, visible = False\<rparr>,
      animationStartRef = Some 0, hasPrimedRef = True, hasCompletedRef = False,
      completionNotifiedRef = False, backgroundOpacityRef = 1, environmentProgressRef = 0,
      calls = [EmitBackgroundOpacity 1, EmitEnvironmentProgress 0]\<rparr>"
  by (simp add: initialController_def defaultGroup_def frame_eval)

lemma frame2:
  "useFrame True (39 / 10) (useFrame True 0 initialController) =
     \<lparr>cakeGroup = Some \<lparr>position = vec 0 0 0, rotation = vec 0 (2 * pi) 0, visible = True\<rparr>,
      tableGroup = Some \<lparr>position = vec 0 0 0, rotation = vec 0 0 0, visible = True\<rparr>,
      candleGroup = Some \<lparr>position = vec 0 5 0, rotation = vec 0 0 0, visible = False\<rparr>,
      animationStartRef = Some 0, hasPrimedRef = True, hasCompletedRef = False,
      completionNotifiedRef = False, backgroundOpacityRef = 1 / 1000,
      environmentProgressRef = 999 / 1000,
      calls = [EmitBackgroundOpacity 1, EmitEnvironmentProgress 0,
               EmitBackgroundOpacity (1 / 1000), OnBackgroundFadeChange (1 / 1000),
               EmitEnvironmentProgress (999 / 1000), OnEnvironmentProgressChange (999 / 1000)]\<rparr>"
  by (simp add: frame1) (simp add: frame_eval power3_eq_cube)

lemma frame3:
  "playFrames [0, 39 / 10, 52 / 10] initialController  =
     \<lparr>cakeGroup = Some \<lparr>position = vec 0 0 0, rotation = vec 0 0 0, visible = True\<rparr>,
      tableGroup = Some \<lparr>position = vec 0 0 0, rotation = vec 0 0 0, visible = True\<rparr>,
      candleGroup = Some \<lparr>position = vec 0 0 0, rotation = vec 0 0 0, visible = True\<rparr>,
      animationStartRef = Some 0, hasPrimedRef = True, hasCompletedRef = True,
      completionNotifiedRef = True, backgroundOpacityRef = 1 / 1000,
      environmentProgressRef = 999 / 1000,
      calls = [EmitBackgroundOpacity 1, EmitEnvironmentProgress 0,
               EmitBackgroundOpacity (1 / 1000), OnBackgroundFadeChange (1 / 1000),
               EmitEnvironmentProgress (999 / 1000), OnEnvironmentProgressChange (999 / 1000),
               EmitBackgroundOpacity 0, EmitEnvironmentProgress 1,
               EmitBackgroundOpacity 0, EmitEnvironmentProgress 1, OnAnimationComplete]\<rparr>"
  by (simp add: playFrames_def frame2) (simp add: frame_eval power3_eq_cube)

section \<open>The deadband of the derived signals\<close>

text \<open>
  Claim C5. Each emit function, given a value \<open>v\<close>, calls its consumer callback exactly
  when the clamped value differs from the stored last-emitted value by more than 0.005,
  and then with the clamped value, which it also stores; otherwise it makes no callback
  and leaves the stored value as it was.
\<close>

theorem emit_forwards_beyond_deadband:
  "DEADBAND = 5 / 1000 \<and>
   drop (length (calls s)) (calls (emitBackgroundOpacity v s)) =
     EmitBackgroundOpacity v #
       (if \<bar>clamp v 0 1 - backgroundOpacityRef s\<bar> > DEADBAND
        then [OnBackgroundFadeChange (clamp v 0 1)] else []) \<and>
   backgroundOpacityRef (emitBackgroundOpacity v s) =
     (if \<bar>clamp v 0 1 - backgroundOpacityRef s\<bar> > DEADBAND
      then clamp v 0 1 else backgroundOpacityRef s) \<and>
   drop (length (calls s)) (calls (emitEnvironmentProgress v s)) =
     EmitEnvironmentProgress v #
       (if \<bar>clamp v 0 1 - environmentProgressRef s\<bar> > DEADBAND
        then [OnEnvironmentProgressChange (clamp v 0 1)] else []) \<and>
   environmentProgressRef (emitEnvironmentProgress v s) =
     (if \<bar>clamp v 0 1 - environmentProgressRef s\<bar> > DEADBAND
      then clamp v 0 1 else environmentProgressRef s)"
  by (simp add: emitBackgroundOpacity_eq emitEnvironmentProgress_eq DEADBAND_def)

theorem emit_forwards_beyond_deadband_witness:
  "calls (emitBackgroundOpacity (1 / 2) initialController) =
     [EmitBackgroundOpacity (1 / 2), OnBackgroundFadeChange (1 / 2)] \<and>
   backgroundOpacityRef (emitBackgroundOpacity (1 / 2) initialController) = 1 / 2 \<and>
   calls (emitEnvironmentProgress (1 / 250) initialController) =
     [EmitEnvironmentProgress (1 / 250)] \<and>
   environmentProgressRef (emitEnvironmentProgress (1 / 250) initialController) = 0"
  using emit_forwards_beyond_deadband [of initialController "1 / 2"]
    emit_forwards_beyond_deadband [of initialController "1 / 250"]
  by (simp add: initialController_def clamp_def)

text \<open>
  Claim C10. After an emit the stored value is within 0.005 of the clamped value just
  computed; an emit within the deadband forwards nothing and stores nothing. So the value
  the consumers hold can stay off the computed signal for good: in the run with frames
  at clock 0, 3.9 and 5.2 the animation completes with the computed pair (0, 1) while the
  consumers were last given 0.001 and 0.999, and no later playing frame changes that.
\<close>

theorem stored_signal_lags_within_deadband:
  "\<bar>clamp v 0 1 - backgroundOpacityRef (emitBackgroundOpacity v s)\<bar> \<le> 5 / 1000 \<and>
   \<bar>clamp v 0 1 - environmentProgressRef (emitEnvironmentProgress v s)\<bar> \<le> 5 / 1000 \<and>
   (\<bar>clamp v 0 1 - backgroundOpacityRef s\<bar> \<le> 5 / 1000 \<longrightarrow>
      emitBackgroundOpacity v s = logCall (EmitBackgroundOpacity v) s) \<and>
   (\<bar>clamp v 0 1 - environmentProgressRef s\<bar> \<le> 5 / 1000 \<longrightarrow>
      emitEnvironmentProgress v s = logCall (EmitEnvironmentProgress v) s) \<and>
   (let fin = playFrames [0, 39 / 10, 52 / 10] initialController
    in hasCompletedRef fin \<and>
       emitted (drop 6 (calls fin)) =
         [EmitBackgroundOpacity 0, EmitEnvironmentProgress 1,
          EmitBackgroundOpacity 0, EmitEnvironmentProgress 1] \<and>
       (\<forall>clocks.
          backgroundOpacityRef (playFrames clocks fin) = 1 / 1000 \<and>
          environmentProgressRef (playFrames clocks fin) = 999 / 1000 \<and>
          filter (\<lambda>c. \<not> isEmit c) (calls (playFrames clocks fin)) =
            [OnBackgroundFadeChange (1 / 1000), OnEnvironmentProgressChange (999 / 1000),
             OnAnimationComplete]))"
proof -
  have a: "\<bar>clamp v 0 1 - backgroundOpacityRef (emitBackgroundOpacity v s)\<bar> \<le> 5 / 1000"
    by (simp add: emitBackgroundOpacity_eq DEADBAND_def)
  have b: "\<bar>clamp v 0 1 - environmentProgressRef (emitEnvironmentProgress v s)\<bar> \<le> 5 / 1000"
    by (simp add: emitEnvironmentProgress_eq DEADBAND_def)
  have c: "\<bar>clamp v 0 1 - backgroundOpacityRef s\<bar> \<le> 5 / 1000 \<longrightarrow>
      emitBackgroundOpacity v s = logCall (EmitBackgroundOpacity v) s"
    by (simp add: emitBackgroundOpacity_eq DEADBAND_def logCall_def)
  have d: "\<bar>clamp v 0 1 - environmentProgressRef s\<bar> \<le> 5 / 1000 \<longrightarrow>
      emitEnvironmentProgress v s = logCall (EmitEnvironmentProgress v) s"
    by (simp add: emitEnvironmentProgress_eq DEADBAND_def logCall_def)
  define fin where "fin = playFrames [0, 39 / 10, 52 / 10] initialController"
  note fin_eq = frame3 [folded fin_def]
  have m: "mounted fin" "consistent fin" "hasCompletedRef fin"
    by (simp_all add: fin_eq mounted_def consistent_def DEADBAND_def)
  have e: "emitted (drop 6 (calls fin)) =
         [EmitBackgroundOpacity 0, EmitEnvironmentProgress 1,
          EmitBackgroundOpacity 0, EmitEnvironmentProgress 1]"
    by (simp add: fin_eq emitted_def)
  have f: "backgroundOpacityRef (playFrames clocks fin) = 1 / 1000 \<and>
          environmentProgressRef (playFrames clocks fin) = 999 / 1000 \<and>
          filter (\<lambda>c. \<not> isEmit c) (calls (playFrames clocks fin)) =
            [OnBackgroundFadeChange (1 / 1000), OnEnvironmentProgressChange (999 / 1000),
             OnAnimationComplete]" for clocks
  proof -
    have "filter (\<lambda>c. \<not> isEmit c)
            (concat (replicate n [EmitBackgroundOpacity 0, EmitEnvironmentProgress 1])) = []" for n
      by (induction n) simp_all
    then show ?thesis
      by (simp add: completed_playFrames [OF m]) (simp add: fin_eq)
  qed
  show ?thesis
    using a b c d m(3) e f unfolding fin_def Let_def by blast
qed

theorem stored_signal_lags_within_deadband_witness:
  "\<bar>clamp (999 / 1000) 0 1 - backgroundOpacityRef initialController\<bar> \<le> 5 / 1000 \<and>
   \<bar>clamp (1 / 250) 0 1 - environmentProgressRef initialController\<bar> \<le> 5 / 1000 \<and>
   backgroundOpacityRef (emitBackgroundOpacity (999 / 1000) initialController) = 1 \<and>
   environmentProgressRef (emitEnvironmentProgress (1 / 250) initialController) = 0 \<and>
   calls (emitBackgroundOpacity (999 / 1000) initialController) =
     [EmitBackgroundOpacity (999 / 1000)] \<and>
   calls (emitEnvironmentProgress (1 / 250) initialController) =
     [EmitEnvironmentProgress (1 / 250)]"
  using stored_signal_lags_within_deadband [of "999 / 1000" initialController]
    stored_signal_lags_within_deadband [of "1 / 250" initialController]
  by (simp add: initialController_def clamp_def logCall_def)

section \<open>Frames, branch by branch\<close>

lemma clampedElapsedAt_simps [simp]:
  "clampedElapsedAt c (primeScene s) = clampedElapsedAt c s"
  "clampedElapsedAt c (startClock c s) = clampedElapsedAt c s"
  by (simp_all add: clampedElapsedAt_def startClock_def split: option.splits)

lemma playingBranch_eq:
  "playingBranch c s =
     terminalCheck (clampedElapsedAt c s)
       (fadeSegment (clampedElapsedAt c s)
       (candleSegment (clampedElapsedAt c s)
       (tableSegment (clampedElapsedAt c s)
       (cakeSegment (clampedElapsedAt c s) (startClock c s)))))"
  by (simp add: playingBranch_def Let_def)

lemma notifyCompletion_fields [simp]:
  "cakeGroup (notifyCompletion s) = cakeGroup s"
  "tableGroup (notifyCompletion s) = tableGroup s"
  "candleGroup (notifyCompletion s) = candleGroup s"
  "animationStartRef (notifyCompletion s) = animationStartRef s"
  "hasPrimedRef (notifyCompletion s) = hasPrimedRef s"
  "hasCompletedRef (notifyCompletion s) = hasCompletedRef s"
  "completionNotifiedRef (notifyCompletion s)"
  "backgroundOpacityRef (notifyCompletion s) = backgroundOpacityRef s"
  "environmentProgressRef (notifyCompletion s) = environmentProgressRef s"
  by (simp_all add: notifyCompletion_def logCall_def)

text \<open>The trace of each step, seen through \<open>emitted\<close> and \<open>completions\<close>.\<close>

lemma emitted_append [simp]: "emitted (xs @ ys) = emitted xs @ emitted ys"
  by (simp add: emitted_def)

lemma completions_append [simp]: "completions (xs @ ys) = completions xs + completions ys"
  by (simp add: completions_def)

lemma calls_emitPair:
  "\<exists>t. calls (emitPair v s) = calls s @ t \<and>
       emitted t = [EmitBackgroundOpacity v, EmitEnvironmentProgress (1 - v)] \<and>
       completions t = 0"
  by (simp add: emitPair_def emitBackgroundOpacity_eq emitEnvironmentProgress_eq
      emitted_def completions_def)

lemma calls_notifyCompletion:
  "calls (notifyCompletion s) =
     calls s @ (if completionNotifiedRef s then [] else [OnAnimationComplete])"
  by (simp add: notifyCompletion_def logCall_def)

text \<open>The calls of a whole frame, branch by branch.\<close>

lemma calls_pauseBranch:
  "\<exists>t. calls (pauseBranch s) = calls s @ t \<and>
       emitted t = [EmitBackgroundOpacity 1, EmitEnvironmentProgress 0] \<and> completions t = 0"
  using calls_emitPair [of 1 s] by (simp add: pauseBranch_eq)

lemma calls_completedBranch:
  "\<exists>t. calls (completedBranch s) = calls s @ t \<and>
       emitted t = [EmitBackgroundOpacity 0, EmitEnvironmentProgress 1] \<and>
       completions t = (if completionNotifiedRef s then 0 else 1)"
  using calls_emitPair [of 0 s]
  by (auto simp add: completedBranch_eq calls_notifyCompletion emitted_def completions_def)

lemma calls_terminalCheck:
  "\<exists>t. calls (terminalCheck e s) = calls s @ t \<and>
       emitted t = (if e \<ge> totalAnimationTime
                    then [EmitBackgroundOpacity 0, EmitEnvironmentProgress 1] else []) \<and>
       completions t = (if e \<ge> totalAnimationTime \<and> \<not> completionNotifiedRef s then 1 else 0)"
proof (cases "e \<ge> totalAnimationTime")
  case False
  then show ?thesis by (simp add: terminalCheck_eq emitted_def completions_def)
next
  case True
  define s3 where "s3 = setCandle (\<lambda>g. g\<lparr>position := vec 0 CANDLE_END_Y 0, visible := True\<rparr>)
                (setTable (\<lambda>g. g\<lparr>position := vec 0 0 TABLE_END_Z\<rparr>)
                (setCake (\<lambda>g. g\<lparr>position := vec 0 CAKE_END_Y 0, rotation := vec 0 0 0\<rparr>) s))"
  have s3: "calls s3 = calls s" "completionNotifiedRef s3 = completionNotifiedRef s"
    by (simp_all add: s3_def segment_defs)
  have tc: "terminalCheck e s = notifyCompletion ((emitPair 0 s3)\<lparr>hasCompletedRef := True\<rparr>)"
    using True by (simp add: terminalCheck_eq s3_def)
  show ?thesis
    using True calls_emitPair [of 0 s3]
    by (auto simp add: tc s3 notifyCompletion_def logCall_def emitted_def completions_def)
qed


lemma calls_playing_frame:
  assumes "mounted s" "\<not> hasCompletedRef s"
  shows "\<exists>t. calls (useFrame True c s) = calls s @ t \<and>
       emitted t =
         [EmitBackgroundOpacity (fadeOpacity (clampedElapsedAt c s)),
          EmitEnvironmentProgress (1 - fadeOpacity (clampedElapsedAt c s))] @
         (if clampedElapsedAt c s \<ge> totalAnimationTime
          then [EmitBackgroundOpacity 0, EmitEnvironmentProgress 1] else []) \<and>
       completions t =
         (if clampedElapsedAt c s \<ge> totalAnimationTime \<and> \<not> completionNotifiedRef s
          then 1 else 0)"
proof -
  define e where "e = clampedElapsedAt c s"
  define s1 where
    "s1 = candleSegment e (tableSegment e (cakeSegment e (startClock c (primeScene s))))"
  have s1: "calls s1 = calls s" "completionNotifiedRef s1 = completionNotifiedRef s"
    by (simp_all add: s1_def)
  obtain t1 where t1: "calls (emitPair (fadeOpacity e) s1) = calls s1 @ t1"
    "emitted t1 = [EmitBackgroundOpacity (fadeOpacity e), EmitEnvironmentProgress (1 - fadeOpacity e)]"
    "completions t1 = 0"
    using calls_emitPair by blast
  obtain t2 where t2:
    "calls (terminalCheck e (emitPair (fadeOpacity e) s1)) = calls (emitPair (fadeOpacity e) s1) @ t2"
    "emitted t2 = (if e \<ge> totalAnimationTime
                    then [EmitBackgroundOpacity 0, EmitEnvironmentProgress 1] else [])"
    "completions t2 = (if e \<ge> totalAnimationTime \<and> \<not> completionNotifiedRef (emitPair (fadeOpacity e) s1) then 1 else 0)"
    using calls_terminalCheck by blast
  have uf: "useFrame True c s = terminalCheck e (emitPair (fadeOpacity e) s1)"
    using assms by (simp add: useFrame_mounted playingBranch_eq fadeSegment_eq e_def s1_def)
  have "calls (useFrame True c s) = calls s @ (t1 @ t2)"
    by (simp add: uf t2(1) t1(1) s1)
  moreover have "emitted (t1 @ t2) =
         [EmitBackgroundOpacity (fadeOpacity e), EmitEnvironmentProgress (1 - fadeOpacity e)] @
         (if e \<ge> totalAnimationTime
          then [EmitBackgroundOpacity 0, EmitEnvironmentProgress 1] else [])"
    by (simp add: t1 t2)
  moreover have "completions (t1 @ t2) =
         (if e \<ge> totalAnimationTime \<and> \<not> completionNotifiedRef s then 1 else 0)"
    by (simp add: t1 t2 s1)
  ultimately show ?thesis
    unfolding e_def by blast
qed

lemma calls_useFrame:
  "\<exists>t. calls (useFrame isPlaying c s) = calls s @ t"
proof (cases "mounted s")
  case False
  then show ?thesis by (auto simp add: useFrame_def mounted_def)
next
  case True
  show ?thesis
  proof (cases "isPlaying")
    case False
    then show ?thesis
      using calls_pauseBranch [of "primeScene s"] True
      by (auto simp add: useFrame_mounted)
  next
    case playing: True
    show ?thesis
    proof (cases "hasCompletedRef s")
      case True
      then show ?thesis
        using calls_completedBranch [of "primeScene s"] \<open>mounted s\<close> playing
        by (auto simp add: useFrame_mounted)
    next
      case False
      then show ?thesis
        using calls_playing_frame [OF \<open>mounted s\<close> False, of c] playing by auto
    qed
  qed
qed

lemma tickCalls_eq:
  "calls (useFrame isPlaying c s) = calls s @ t \<Longrightarrow> tickCalls isPlaying c s = t"
  by (simp add: tickCalls_def)

text \<open>The groups after a playing frame.\<close>

lemma cakeGroup_playing_frame:
  assumes "mounted s" "\<not> hasCompletedRef s" "cakeGroup s = Some cake"
  shows "cakeGroup (useFrame True c s) =
     Some (cake\<lparr>position :=
                   vec 0 (lerp CAKE_START_Y CAKE_END_Y
                     (easeOutCubic (clamp (clampedElapsedAt c s / CAKE_DESCENT_DURATION) 0 1))) 0,
                 rotation :=
                   (if clampedElapsedAt c s \<ge> totalAnimationTime then vec 0 0 0
                    else vec 0 (easeOutCubic (clamp (clampedElapsedAt c s / CAKE_DESCENT_DURATION) 0 1)
                            * pi * 2) 0)\<rparr>)"
  using assms
  apply (simp add: useFrame_mounted playingBranch_eq fadeSegment_eq terminalCheck_eq)
  apply (simp add: segment_defs Let_def vec_def)
  apply (auto simp add: constant_values clamp_def easeOutCubic_def lerp_def CAKE_DESCENT_DURATION_def CAKE_END_Y_def)
  done


lemma tableGroup_playing_frame:
  assumes "mounted s" "\<not> hasCompletedRef s" "tableGroup s = Some table"
  shows "tableGroup (useFrame True c s) =
     Some (table\<lparr>position :=
                    vec 0 0 (if clampedElapsedAt c s \<ge> TABLE_SLIDE_START
                             then lerp TABLE_START_Z TABLE_END_Z
                                (easeOutCubic (clamp ((clampedElapsedAt c s - TABLE_SLIDE_START)
                                   / TABLE_SLIDE_DURATION) 0 1))
                             else TABLE_START_Z),
                  rotation := vec 0 0 0\<rparr>)"
  using assms
  apply (simp add: useFrame_mounted playingBranch_eq fadeSegment_eq terminalCheck_eq)
  apply (simp add: segment_defs Let_def vec_def)
  apply (auto simp add: constant_values clamp_def easeOutCubic_def lerp_def
      TABLE_SLIDE_DURATION_def TABLE_END_Z_def)
  done

lemma candleGroup_playing_frame:
  assumes "mounted s" "\<not> hasCompletedRef s" "candleGroup s = Some candle"
  shows "map_option visible (candleGroup (useFrame True c s)) =
           Some (clampedElapsedAt c s \<ge> CANDLE_DROP_START)"
    and "map_option (vy \<circ> position) (candleGroup (useFrame True c s)) =
           Some (if clampedElapsedAt c s \<ge> CANDLE_DROP_START
                 then lerp CANDLE_START_Y CANDLE_END_Y
                        (easeOutCubic (clamp ((clampedElapsedAt c s - CANDLE_DROP_START)
                           / CANDLE_DROP_DURATION) 0 1))
                 else CANDLE_START_Y)"
    and "clampedElapsedAt c s \<ge> totalAnimationTime \<Longrightarrow>
         map_option position (candleGroup (useFrame True c s)) = Some (vec 0 CANDLE_END_Y 0)"
    and "clampedElapsedAt c s < CANDLE_DROP_START \<Longrightarrow>
         map_option position (candleGroup (useFrame True c s)) = Some (vec 0 CANDLE_START_Y 0)"
  using assms
     apply (simp_all add: useFrame_mounted playingBranch_eq fadeSegment_eq terminalCheck_eq)
     apply (simp_all add: segment_defs Let_def vec_def)
     apply (auto simp add: constant_values clamp_def easeOutCubic_def lerp_def
      CANDLE_DROP_DURATION_def CANDLE_END_Y_def)
  done

lemma hasCompletedRef_playing_frame:
  assumes "mounted s" "\<not> hasCompletedRef s"
  shows "hasCompletedRef (useFrame True c s) = (clampedElapsedAt c s \<ge> totalAnimationTime)"
  using assms
  by (simp add: useFrame_mounted playingBranch_eq fadeSegment_eq terminalCheck_eq)

lemma mounted_primeScene [simp]: "mounted (primeScene s) = mounted s"
  by (simp add: mounted_def segment_defs)

lemma groups_pauseBranch [simp]:
  "cakeGroup (pauseBranch s) = cakeGroup s"
  "tableGroup (pauseBranch s) = tableGroup s"
  "candleGroup (pauseBranch s) = candleGroup s"
  by (simp_all add: pauseBranch_eq)

lemma groups_completedBranch [simp]:
  "cakeGroup (completedBranch s) = cakeGroup s"
  "tableGroup (completedBranch s) = tableGroup s"
  "candleGroup (completedBranch s) = candleGroup s"
  by (simp_all add: completedBranch_eq)

lemma mounted_useFrame: "mounted (useFrame isPlaying c s) = mounted s"
proof (cases "mounted s")
  case False
  then show ?thesis by (auto simp add: useFrame_def mounted_def)
next
  case True
  then obtain cake table candle where g:
    "cakeGroup s = Some cake" "tableGroup s = Some table" "candleGroup s = Some candle"
    by (auto simp add: mounted_def)
  show ?thesis
  proof (cases "isPlaying \<and> \<not> hasCompletedRef s")
    case False
    have "mounted (pauseBranch (primeScene s))" "mounted (completedBranch (primeScene s))"
      using True mounted_primeScene [of s] unfolding mounted_def by simp_all
    then show ?thesis
      using True False by (auto simp add: useFrame_mounted)
  next
    case playing: True
    then have nc: "\<not> hasCompletedRef s" by simp
    have "mounted (useFrame True c s)"
      using cakeGroup_playing_frame [OF True nc g(1), of c]
        tableGroup_playing_frame [OF True nc g(2), of c]
        candleGroup_playing_frame(1) [OF True nc g(3), of c]
      by (auto simp add: mounted_def)
    then show ?thesis using True playing by simp
  qed
qed

section \<open>The timeline at its end\<close>

text \<open>
  Claim C1. The constants give the table slide start 2.2, the candle drop start
  max(3, 2.9) + 1.0 = 4.0 and the total duration 5.2. On a mounted controller in a
  reachable state that has not completed, a playing frame whose clamped elapsed time is
  5.2 leaves the cake at its end height, the table at its end depth and the candle
  visible at its end height; it hands 0 to the opacity emit and 1 to the progress emit
  (and nothing else), leaves the stored signals within the deadband of 0 and 1, and calls
  the completion callback exactly once.
\<close>

theorem final_frame_reaches_end_pose:
  assumes "mounted s" and "consistent s" and "\<not> hasCompletedRef s"
    and "clampedElapsedAt c s = 52 / 10"
  shows "TABLE_SLIDE_START = 22 / 10 \<and>
     CANDLE_DROP_START = max 3 (29 / 10) + 1 \<and> CANDLE_DROP_START = 4 \<and>
     totalAnimationTime = 52 / 10 \<and>
     map_option (vy \<circ> position) (cakeGroup (useFrame True c s)) = Some CAKE_END_Y \<and>
     map_option (vz \<circ> position) (tableGroup (useFrame True c s)) = Some TABLE_END_Z \<and>
     map_option visible (candleGroup (useFrame True c s)) = Some True \<and>
     map_option (vy \<circ> position) (candleGroup (useFrame True c s)) = Some CANDLE_END_Y \<and>
     emitted (tickCalls True c s) =
       [EmitBackgroundOpacity 0, EmitEnvironmentProgress 1,
        EmitBackgroundOpacity 0, EmitEnvironmentProgress 1] \<and>
     \<bar>backgroundOpacityRef (useFrame True c s) - 0\<bar> \<le> 5 / 1000 \<and>
     \<bar>environmentProgressRef (useFrame True c s) - 1\<bar> \<le> 5 / 1000 \<and>
     completions (tickCalls True c s) = 1 \<and>
     hasCompletedRef (useFrame True c s)"
proof -
  obtain cake table candle where g:
    "cakeGroup s = Some cake" "tableGroup s = Some table" "candleGroup s = Some candle"
    using assms(1) by (auto simp add: mounted_def)
  have nn: "\<not> completionNotifiedRef s"
    using assms(2,3) by (simp add: consistent_def)
  have e: "clampedElapsedAt c s \<ge> totalAnimationTime"
    using assms(4) by (simp add: constant_values)
  have cv: "TABLE_SLIDE_START = 22 / 10" "CANDLE_DROP_START = max 3 (29 / 10) + 1"
    "CANDLE_DROP_START = 4" "totalAnimationTime = 52 / 10"
    by (simp_all add: constant_values)
  have cake: "map_option (vy \<circ> position) (cakeGroup (useFrame True c s)) = Some CAKE_END_Y"
    using assms(4)
    by (simp add: cakeGroup_playing_frame [OF assms(1,3) g(1)] vec_def lerp_def clamp_def
        easeOutCubic_def CAKE_DESCENT_DURATION_def CAKE_START_Y_def CAKE_END_Y_def)
  have table: "map_option (vz \<circ> position) (tableGroup (useFrame True c s)) = Some TABLE_END_Z"
    using assms(4)
    by (simp add: tableGroup_playing_frame [OF assms(1,3) g(2)] vec_def lerp_def clamp_def
        easeOutCubic_def constant_values TABLE_SLIDE_DURATION_def TABLE_START_Z_def
        TABLE_END_Z_def)
  have candle: "map_option visible (candleGroup (useFrame True c s)) = Some True"
    "map_option (vy \<circ> position) (candleGroup (useFrame True c s)) = Some CANDLE_END_Y"
    using assms(4) candleGroup_playing_frame(1,2) [OF assms(1,3) g(3), of c]
    by (simp_all add: lerp_def clamp_def easeOutCubic_def constant_values
        CANDLE_DROP_DURATION_def CANDLE_START_Y_def CANDLE_END_Y_def)
  obtain t where t: "calls (useFrame True c s) = calls s @ t"
    "emitted t =
         [EmitBackgroundOpacity (fadeOpacity (clampedElapsedAt c s)),
          EmitEnvironmentProgress (1 - fadeOpacity (clampedElapsedAt c s))] @
         (if clampedElapsedAt c s \<ge> totalAnimationTime
          then [EmitBackgroundOpacity 0, EmitEnvironmentProgress 1] else [])"
    "completions t =
         (if clampedElapsedAt c s \<ge> totalAnimationTime \<and> \<not> completionNotifiedRef s
          then 1 else 0)"
    using calls_playing_frame [OF assms(1,3)] by blast
  have tc: "tickCalls True c s = t"
    using t(1) by (rule tickCalls_eq)
  have fo: "fadeOpacity (clampedElapsedAt c s) = 0"
    using assms(4) by (simp add: fadeOpacity_def constant_values clamp_def easeOutCubic_def
        BACKGROUND_FADE_DURATION_def)
  have em: "emitted (tickCalls True c s) =
       [EmitBackgroundOpacity 0, EmitEnvironmentProgress 1,
        EmitBackgroundOpacity 0, EmitEnvironmentProgress 1]"
    using e by (simp add: tc t(2) fo)
  have co: "completions (tickCalls True c s) = 1"
    using e nn by (simp add: tc t(3))
  have hc: "hasCompletedRef (useFrame True c s)"
    using e by (simp add: hasCompletedRef_playing_frame [OF assms(1,3)])
  have "consistent (useFrame True c s)"
    using assms(2) by (rule consistent_useFrame)
  then have "backgroundOpacityRef (useFrame True c s) + environmentProgressRef (useFrame True c s) = 1"
    "\<bar>backgroundOpacityRef (useFrame True c s)\<bar> \<le> 5 / 1000"
    using hc by (simp_all add: consistent_def DEADBAND_def)
  then have st: "\<bar>backgroundOpacityRef (useFrame True c s) - 0\<bar> \<le> 5 / 1000"
    "\<bar>environmentProgressRef (useFrame True c s) - 1\<bar> \<le> 5 / 1000"
    by linarith+
  show ?thesis
    using cv cake table candle em st co hc by blast
qed

theorem final_frame_reaches_end_pose_witness:
  "mounted (playFrames [0, 39 / 10] initialController) \<and>
   consistent (playFrames [0, 39 / 10] initialController) \<and>
   \<not> hasCompletedRef (playFrames [0, 39 / 10] initialController) \<and>
   clampedElapsedAt (52 / 10) (playFrames [0, 39 / 10] initialController) = 52 / 10 \<and>
   map_option (vy \<circ> position)
     (cakeGroup (useFrame True (52 / 10) (playFrames [0, 39 / 10] initialController))) =
     Some CAKE_END_Y \<and>
   completions (tickCalls True (52 / 10) (playFrames [0, 39 / 10] initialController)) = 1 \<and>
   hasCompletedRef (useFrame True (52 / 10) (playFrames [0, 39 / 10] initialController))"
proof -
  have s: "playFrames [0, 39 / 10] initialController =
      useFrame True (39 / 10) (useFrame True 0 initialController)"
    by (simp add: playFrames_def)
  have h: "mounted (playFrames [0, 39 / 10] initialController)"
    "consistent (playFrames [0, 39 / 10] initialController)"
    "\<not> hasCompletedRef (playFrames [0, 39 / 10] initialController)"
    "clampedElapsedAt (52 / 10) (playFrames [0, 39 / 10] initialController) = 52 / 10"
    unfolding s frame2
    by (simp_all add: mounted_def consistent_def clampedElapsedAt_def clamp_def constant_values)
  show ?thesis
    using h final_frame_reaches_end_pose [OF h] by blast
qed

text \<open>
  Claim C7, as the code has it. On the frame where the clamped elapsed time first reaches
  the total duration, the cake is at (0, CAKE_END_Y, 0) with its rotation reset to
  (0, 0, 0), the table is at (0, 0, TABLE_END_Z) and the candle is visible at
  (0, CANDLE_END_Y, 0).
\<close>

theorem terminal_snap_end_pose:
  assumes "mounted s" and "\<not> hasCompletedRef s"
    and "clampedElapsedAt c s \<ge> totalAnimationTime"
  shows "map_option position (cakeGroup (useFrame True c s)) = Some (vec 0 CAKE_END_Y 0) \<and>
     map_option rotation (cakeGroup (useFrame True c s)) = Some (vec 0 0 0) \<and>
     map_option position (tableGroup (useFrame True c s)) = Some (vec 0 0 TABLE_END_Z) \<and>
     map_option visible (candleGroup (useFrame True c s)) = Some True \<and>
     map_option position (candleGroup (useFrame True c s)) = Some (vec 0 CANDLE_END_Y 0) \<and>
     hasCompletedRef (useFrame True c s)"
proof -
  obtain cake table candle where g:
    "cakeGroup s = Some cake" "tableGroup s = Some table" "candleGroup s = Some candle"
    using assms(1) by (auto simp add: mounted_def)
  have e: "clampedElapsedAt c s \<ge> 52 / 10"
    using assms(3) by (simp add: constant_values)
  have cake: "map_option position (cakeGroup (useFrame True c s)) = Some (vec 0 CAKE_END_Y 0)"
    "map_option rotation (cakeGroup (useFrame True c s)) = Some (vec 0 0 0)"
    using e assms(3)
    by (simp_all add: cakeGroup_playing_frame [OF assms(1,2) g(1)] lerp_def clamp_def
        easeOutCubic_def CAKE_DESCENT_DURATION_def CAKE_START_Y_def CAKE_END_Y_def)
  have table: "map_option position (tableGroup (useFrame True c s)) = Some (vec 0 0 TABLE_END_Z)"
    using e
    by (simp add: tableGroup_playing_frame [OF assms(1,2) g(2)] lerp_def clamp_def
        easeOutCubic_def constant_values TABLE_SLIDE_DURATION_def TABLE_START_Z_def
        TABLE_END_Z_def)
  have candle: "map_option visible (candleGroup (useFrame True c s)) = Some True"
    "map_option position (candleGroup (useFrame True c s)) = Some (vec 0 CANDLE_END_Y 0)"
    using e assms(3) candleGroup_playing_frame(1,3) [OF assms(1,2) g(3), of c]
    by (simp_all add: constant_values)
  have hc: "hasCompletedRef (useFrame True c s)"
    using assms(3) by (simp add: hasCompletedRef_playing_frame [OF assms(1,2)])
  show ?thesis
    using cake table candle hc by blast
qed

theorem terminal_snap_end_pose_witness:
  "mounted (playFrames [0, 39 / 10] initialController) \<and>
   \<not> hasCompletedRef (playFrames [0, 39 / 10] initialController) \<and>
   clampedElapsedAt (52 / 10) (playFrames [0, 39 / 10] initialController)
     \<ge> totalAnimationTime \<and>
   map_option rotation
     (cakeGroup (useFrame True (52 / 10) (playFrames [0, 39 / 10] initialController))) =
     Some (vec 0 0 0) \<and>
   map_option position
     (candleGroup (useFrame True (52 / 10) (playFrames [0, 39 / 10] initialController))) =
     Some (vec 0 CANDLE_END_Y 0)"
proof -
  have s: "playFrames [0, 39 / 10] initialController =
      useFrame True (39 / 10) (useFrame True 0 initialController)"
    by (simp add: playFrames_def)
  have h: "mounted (playFrames [0, 39 / 10] initialController)"
    "\<not> hasCompletedRef (playFrames [0, 39 / 10] initialController)"
    "clampedElapsedAt (52 / 10) (playFrames [0, 39 / 10] initialController)
       \<ge> totalAnimationTime"
    unfolding s frame2
    by (simp_all add: mounted_def clampedElapsedAt_def clamp_def constant_values)
  show ?thesis
    using h terminal_snap_end_pose [OF h] by blast
qed

text \<open>
  The claim as stated fails: in the run with frames at clock 0, 3.9 and 5.2 the frame
  at 5.2 is the first whose clamped elapsed time reaches the total duration, the cake's
  y-rotation stood at one full turn before it, and after it the y-rotation is 0.
\<close>

theorem terminal_snap_rotation_counterexample:
  "\<not> hasCompletedRef (playFrames [0, 39 / 10] initialController) \<and>
   clampedElapsedAt (52 / 10) (playFrames [0, 39 / 10] initialController) =
     totalAnimationTime \<and>
   map_option (vy \<circ> rotation) (cakeGroup (playFrames [0, 39 / 10] initialController)) =
     Some (2 * pi) \<and>
   map_option (vy \<circ> rotation)
     (cakeGroup (useFrame True (52 / 10) (playFrames [0, 39 / 10] initialController))) =
     Some 0 \<and>
   map_option (vy \<circ> rotation)
     (cakeGroup (useFrame True (52 / 10) (playFrames [0, 39 / 10] initialController))) \<noteq>
     Some (2 * pi)"
proof -
  have s: "playFrames [0, 39 / 10] initialController =
      useFrame True (39 / 10) (useFrame True 0 initialController)"
    by (simp add: playFrames_def)
  have t: "useFrame True (52 / 10) (playFrames [0, 39 / 10] initialController) =
      playFrames [0, 39 / 10, 52 / 10] initialController"
    by (simp add: playFrames_def)
  show ?thesis
    unfolding t frame3 unfolding s frame2
    by (simp add: clampedElapsedAt_def clamp_def constant_values vec_def)
qed

section \<open>The cake's descent\<close>

lemma cube_mono:
  fixes a b :: real
  assumes "0 \<le> b" "b \<le> a"
  shows "b ^ 3 \<le> a ^ 3"
  using assms by (simp add: power_mono)

lemma clamp_mono: "a \<le> b \<Longrightarrow> clamp a lo hi \<le> clamp b lo hi"
  by (simp add: clamp_def min_def max_def)

lemma clamp_bounds: "lo \<le> hi \<Longrightarrow> lo \<le> clamp v lo hi \<and> clamp v lo hi \<le> hi"
  by (simp add: clamp_def min_def max_def)

lemma clampedElapsedAt_range:
  "0 \<le> clampedElapsedAt c s \<and> clampedElapsedAt c s \<le> totalAnimationTime"
  using clamp_bounds [of 0 totalAnimationTime]
  by (simp add: clampedElapsedAt_def Let_def constant_values)

text \<open>The height the cake segment computes, as a function of the clamped elapsed time.\<close>

lemma cake_height_mono:
  assumes "e1 \<le> e2"
  shows "lerp CAKE_START_Y CAKE_END_Y (easeOutCubic (clamp (e2 / CAKE_DESCENT_DURATION) 0 1))
       \<le> lerp CAKE_START_Y CAKE_END_Y (easeOutCubic (clamp (e1 / CAKE_DESCENT_DURATION) 0 1))"
proof -
  define p1 where "p1 = clamp (e1 / CAKE_DESCENT_DURATION) 0 1"
  define p2 where "p2 = clamp (e2 / CAKE_DESCENT_DURATION) 0 1"
  have "e1 / CAKE_DESCENT_DURATION \<le> e2 / CAKE_DESCENT_DURATION"
    using assms by (simp add: CAKE_DESCENT_DURATION_def)
  then have le: "p1 \<le> p2"
    unfolding p1_def p2_def by (rule clamp_mono)
  have "p2 \<le> 1"
    using clamp_bounds [of 0 1] by (simp add: p2_def)
  then have "(1 - p2) ^ 3 \<le> (1 - p1) ^ 3"
    using le by (intro cube_mono) simp_all
  then show ?thesis
    by (simp add: lerp_def easeOutCubic_def CAKE_START_Y_def CAKE_END_Y_def
        p1_def [symmetric] p2_def [symmetric])
qed

text \<open>
  Claim C8. Over playing frames the cake's height never increases with the clamped elapsed
  time (which always lies between 0 and the total duration); it is CAKE_START_Y at clamped
  elapsed 0 and exactly CAKE_END_Y at the total duration.
\<close>

theorem cake_height_nonincreasing:
  assumes "mounted s1" and "\<not> hasCompletedRef s1"
    and "mounted s2" and "\<not> hasCompletedRef s2"
    and "clampedElapsedAt c1 s1 \<le> clampedElapsedAt c2 s2"
  shows "\<exists>y1 y2.
       map_option (vy \<circ> position) (cakeGroup (useFrame True c1 s1)) = Some y1 \<and>
       map_option (vy \<circ> position) (cakeGroup (useFrame True c2 s2)) = Some y2 \<and>
       y2 \<le> y1 \<and>
       (clampedElapsedAt c1 s1 = 0 \<longrightarrow> y1 = CAKE_START_Y) \<and>
       (clampedElapsedAt c2 s2 = totalAnimationTime \<longrightarrow> y2 = CAKE_END_Y) \<and>
       0 \<le> clampedElapsedAt c1 s1 \<and> clampedElapsedAt c2 s2 \<le> totalAnimationTime"
proof -
  obtain cake1 cake2 where g: "cakeGroup s1 = Some cake1" "cakeGroup s2 = Some cake2"
    using assms(1,3) by (auto simp add: mounted_def)
  define y where "y = (\<lambda>e. lerp CAKE_START_Y CAKE_END_Y
     (easeOutCubic (clamp (e / CAKE_DESCENT_DURATION) 0 1)))"
  have y1: "map_option (vy \<circ> position) (cakeGroup (useFrame True c1 s1)) =
      Some (y (clampedElapsedAt c1 s1))"
    by (simp add: cakeGroup_playing_frame [OF assms(1,2) g(1)] vec_def y_def)
  have y2: "map_option (vy \<circ> position) (cakeGroup (useFrame True c2 s2)) =
      Some (y (clampedElapsedAt c2 s2))"
    by (simp add: cakeGroup_playing_frame [OF assms(3,4) g(2)] vec_def y_def)
  have le: "y (clampedElapsedAt c2 s2) \<le> y (clampedElapsedAt c1 s1)"
    unfolding y_def using assms(5) by (rule cake_height_mono)
  have y0: "y 0 = CAKE_START_Y"
    by (simp add: y_def lerp_def easeOutCubic_def clamp_def)
  have yT: "y totalAnimationTime = CAKE_END_Y"
    by (simp add: y_def lerp_def easeOutCubic_def clamp_def constant_values
        CAKE_DESCENT_DURATION_def CAKE_START_Y_def CAKE_END_Y_def)
  show ?thesis
    using y1 y2 le y0 yT clampedElapsedAt_range [of c1 s1] clampedElapsedAt_range [of c2 s2]
    by auto
qed

theorem cake_height_nonincreasing_witness:
  "mounted initialController \<and> \<not> hasCompletedRef initialController \<and>
   mounted (useFrame True 0 initialController) \<and>
   \<not> hasCompletedRef (useFrame True 0 initialController) \<and>
   clampedElapsedAt 0 initialController
     \<le> clampedElapsedAt (3 / 2) (useFrame True 0 initialController) \<and>
   (\<exists>y1 y2.
       map_option (vy \<circ> position) (cakeGroup (useFrame True 0 initialController)) = Some y1 \<and>
       map_option (vy \<circ> position)
         (cakeGroup (useFrame True (3 / 2) (useFrame True 0 initialController))) = Some y2 \<and>
       y2 \<le> y1 \<and>
       (clampedElapsedAt 0 initialController = 0 \<longrightarrow> y1 = CAKE_START_Y) \<and>
       (clampedElapsedAt (3 / 2) (useFrame True 0 initialController) = totalAnimationTime
          \<longrightarrow> y2 = CAKE_END_Y) \<and>
       0 \<le> clampedElapsedAt 0 initialController \<and>
       clampedElapsedAt (3 / 2) (useFrame True 0 initialController) \<le> totalAnimationTime) \<and>
   map_option (vy \<circ> position) (cakeGroup (useFrame True 0 initialController)) = Some 10 \<and>
   map_option (vy \<circ> position)
     (cakeGroup (useFrame True (3 / 2) (useFrame True 0 initialController))) = Some (5 / 4)"
proof -
  have h: "mounted initialController" "\<not> hasCompletedRef initialController"
    "mounted (useFrame True 0 initialController)"
    "\<not> hasCompletedRef (useFrame True 0 initialController)"
    "clampedElapsedAt 0 initialController
       \<le> clampedElapsedAt (3 / 2) (useFrame True 0 initialController)"
    unfolding frame1
    by (simp_all add: initialController_def mounted_def clampedElapsedAt_def clamp_def
        constant_values)
  have v: "map_option (vy \<circ> position) (cakeGroup (useFrame True 0 initialController)) = Some 10"
    "map_option (vy \<circ> position)
       (cakeGroup (useFrame True (3 / 2) (useFrame True 0 initialController))) = Some (5 / 4)"
    unfolding frame1 by (simp_all add: frame_eval power3_eq_cube)
  show ?thesis
    using h v cake_height_nonincreasing [OF h] by blast
qed

lemma cube_below_one:
  fixes a :: real
  assumes "0 \<le> a" "a < 1"
  shows "a ^ 3 < 1"
  using power_strict_mono [OF assms(2,1), of 3] by simp

section \<open>The table slide\<close>

text \<open>
  Claim C6, as the code has it. The table segment starts at TABLE_SLIDE_START = 2.2, which
  is before max(CAKE_DESCENT_DURATION, TABLE_SLIDE_START) = 3: on a playing frame the
  table's depth is TABLE_START_Z exactly when the clamped elapsed time is at most
  TABLE_SLIDE_START, and from that offset on it is the eased value between TABLE_START_Z
  and TABLE_END_Z.
\<close>

theorem table_slides_from_slide_start:
  assumes "mounted s" and "\<not> hasCompletedRef s"
  shows "TABLE_SLIDE_START = 22 / 10 \<and>
     max CAKE_DESCENT_DURATION TABLE_SLIDE_START = 3 \<and>
     (\<exists>z. map_option (vz \<circ> position) (tableGroup (useFrame True c s)) = Some z \<and>
        (clampedElapsedAt c s < TABLE_SLIDE_START \<longrightarrow> z = TABLE_START_Z) \<and>
        (TABLE_SLIDE_START \<le> clampedElapsedAt c s \<longrightarrow>
           z = lerp TABLE_START_Z TABLE_END_Z
                 (easeOutCubic (clamp ((clampedElapsedAt c s - TABLE_SLIDE_START)
                    / TABLE_SLIDE_DURATION) 0 1))) \<and>
        (z = TABLE_START_Z \<longleftrightarrow> clampedElapsedAt c s \<le> TABLE_SLIDE_START) \<and>
        TABLE_END_Z \<le> z \<and> z \<le> TABLE_START_Z)"
proof -
  obtain table where g: "tableGroup s = Some table"
    using assms(1) by (auto simp add: mounted_def)
  define e where "e = clampedElapsedAt c s"
  define p where "p = clamp ((e - TABLE_SLIDE_START) / TABLE_SLIDE_DURATION) 0 1"
  define z where "z = (if e \<ge> TABLE_SLIDE_START
                       then lerp TABLE_START_Z TABLE_END_Z (easeOutCubic p)
                       else TABLE_START_Z)"
  have zv: "map_option (vz \<circ> position) (tableGroup (useFrame True c s)) = Some z"
    by (simp add: tableGroup_playing_frame [OF assms g] vec_def z_def p_def e_def)
  have pr: "0 \<le> p" "p \<le> 1"
    using clamp_bounds [of 0 1] by (simp_all add: p_def)
  have p0: "p = 0 \<longleftrightarrow> e \<le> TABLE_SLIDE_START"
    by (simp add: p_def clamp_def TABLE_SLIDE_DURATION_def min_def max_def)
  have le: "lerp TABLE_START_Z TABLE_END_Z (easeOutCubic p) = 30 * (1 - p) ^ 3"
    by (simp add: lerp_def easeOutCubic_def TABLE_START_Z_def TABLE_END_Z_def)
  have c0: "0 \<le> (1 - p) ^ 3" "(1 - p) ^ 3 \<le> 1"
    using pr by (simp_all add: power_le_one)
  have c1: "(1 - p) ^ 3 = 1 \<longleftrightarrow> p = 0"
  proof
    assume one: "(1 - p) ^ 3 = 1"
    show "p = 0"
    proof (rule ccontr)
      assume "p \<noteq> 0"
      then have "0 \<le> 1 - p" "1 - p < 1"
        using pr by simp_all
      then have "(1 - p) ^ 3 < 1"
        by (rule cube_below_one)
      then show False using one by simp
    qed
  qed simp
  have a: "e < TABLE_SLIDE_START \<longrightarrow> z = TABLE_START_Z"
    by (simp add: z_def)
  have b: "TABLE_SLIDE_START \<le> e \<longrightarrow> z = lerp TABLE_START_Z TABLE_END_Z (easeOutCubic p)"
    by (simp add: z_def)
  have zc: "z = (if e \<ge> TABLE_SLIDE_START then 30 * (1 - p) ^ 3 else 30)"
    by (simp add: z_def le) (simp add: TABLE_START_Z_def)
  have d: "z = TABLE_START_Z \<longleftrightarrow> e \<le> TABLE_SLIDE_START"
    using c1 p0 by (auto simp add: zc TABLE_START_Z_def)
  have r: "TABLE_END_Z \<le> z" "z \<le> TABLE_START_Z"
    using c0 by (simp_all add: zc TABLE_START_Z_def TABLE_END_Z_def)
  have cv: "TABLE_SLIDE_START = 22 / 10" "max CAKE_DESCENT_DURATION TABLE_SLIDE_START = 3"
    by (simp_all add: constant_values CAKE_DESCENT_DURATION_def)
  show ?thesis
    using cv zv a b d r unfolding p_def e_def by blast
qed

theorem table_slides_from_slide_start_witness:
  "mounted (useFrame True 0 initialController) \<and>
   \<not> hasCompletedRef (useFrame True 0 initialController) \<and>
   (\<exists>z. map_option (vz \<circ> position)
           (tableGroup (useFrame True 2 (useFrame True 0 initialController))) = Some z \<and>
        (clampedElapsedAt 2 (useFrame True 0 initialController) < TABLE_SLIDE_START
           \<longrightarrow> z = TABLE_START_Z) \<and>
        (TABLE_SLIDE_START \<le> clampedElapsedAt 2 (useFrame True 0 initialController) \<longrightarrow>
           z = lerp TABLE_START_Z TABLE_END_Z
                 (easeOutCubic (clamp ((clampedElapsedAt 2 (useFrame True 0 initialController)
                    - TABLE_SLIDE_START) / TABLE_SLIDE_DURATION) 0 1))) \<and>
        (z = TABLE_START_Z \<longleftrightarrow>
           clampedElapsedAt 2 (useFrame True 0 initialController) \<le> TABLE_SLIDE_START) \<and>
        TABLE_END_Z \<le> z \<and> z \<le> TABLE_START_Z) \<and>
   clampedElapsedAt 2 (useFrame True 0 initialController) < TABLE_SLIDE_START \<and>
   map_option (vz \<circ> position)
     (tableGroup (useFrame True 2 (useFrame True 0 initialController))) = Some TABLE_START_Z"
proof -
  have h: "mounted (useFrame True 0 initialController)"
    "\<not> hasCompletedRef (useFrame True 0 initialController)"
    unfolding frame1 by (simp_all add: mounted_def)
  have v: "clampedElapsedAt 2 (useFrame True 0 initialController) < TABLE_SLIDE_START"
    unfolding frame1 by (simp add: clampedElapsedAt_def clamp_def constant_values)
  show ?thesis
    using h v table_slides_from_slide_start [OF h, of 2] by auto
qed

text \<open>
  The claim as stated fails: at clamped elapsed 2.5, below max(3, 2.2) = 3, the table has
  left TABLE_START_Z.
\<close>

theorem table_slide_counterexample:
  "\<not> hasCompletedRef (useFrame True 0 initialController) \<and>
   clampedElapsedAt (5 / 2) (useFrame True 0 initialController) = 5 / 2 \<and>
   5 / 2 < max CAKE_DESCENT_DURATION TABLE_SLIDE_START \<and>
   map_option (vz \<circ> position)
     (tableGroup (useFrame True (5 / 2) (useFrame True 0 initialController))) =
     Some (1920 / 343) \<and>
   map_option (vz \<circ> position)
     (tableGroup (useFrame True (5 / 2) (useFrame True 0 initialController))) \<noteq>
     Some TABLE_START_Z"
  unfolding frame1 by (simp add: frame_eval power3_eq_cube)

section \<open>Frames while not playing\<close>

text \<open>
  Claim C3, as the code has it. On a mounted controller a frame with \<open>isPlaying\<close>
  false hands 1 to the opacity emit and 0 to the progress emit, clears the animation start
  and resets both completion flags. On a controller that is already primed it writes no
  transform at all; on the first frame ever it puts the three objects into their start
  pose.
\<close>

theorem paused_frame_resets_signals:
  assumes "mounted s"
  shows "emitted (tickCalls False c s) = [EmitBackgroundOpacity 1, EmitEnvironmentProgress 0] \<and>
     completions (tickCalls False c s) = 0 \<and>
     animationStartRef (useFrame False c s) = None \<and>
     \<not> hasCompletedRef (useFrame False c s) \<and>
     \<not> completionNotifiedRef (useFrame False c s) \<and>
     hasPrimedRef (useFrame False c s) \<and>
     (hasPrimedRef s \<longrightarrow> transforms (useFrame False c s) = transforms s) \<and>
     (\<not> hasPrimedRef s \<longrightarrow>
        map_option position (cakeGroup (useFrame False c s)) = Some (vec 0 CAKE_START_Y 0) \<and>
        map_option rotation (cakeGroup (useFrame False c s)) = Some (vec 0 0 0) \<and>
        map_option position (tableGroup (useFrame False c s)) = Some (vec 0 0 TABLE_START_Z) \<and>
        map_option rotation (tableGroup (useFrame False c s)) = Some (vec 0 0 0) \<and>
        map_option position (candleGroup (useFrame False c s)) = Some (vec 0 CANDLE_START_Y 0) \<and>
        map_option visible (candleGroup (useFrame False c s)) = Some False)"
proof -
  obtain cake table candle where g:
    "cakeGroup s = Some cake" "tableGroup s = Some table" "candleGroup s = Some candle"
    using assms by (auto simp add: mounted_def)
  have uf: "useFrame False c s = pauseBranch (primeScene s)"
    using assms by (simp add: useFrame_mounted)
  obtain t where t: "calls (pauseBranch (primeScene s)) = calls (primeScene s) @ t"
    "emitted t = [EmitBackgroundOpacity 1, EmitEnvironmentProgress 0]" "completions t = 0"
    using calls_pauseBranch by blast
  have tc: "tickCalls False c s = t"
    using t(1) by (intro tickCalls_eq) (simp add: uf)
  have refs: "animationStartRef (useFrame False c s) = None"
    "\<not> hasCompletedRef (useFrame False c s)" "\<not> completionNotifiedRef (useFrame False c s)"
    "hasPrimedRef (useFrame False c s)"
    by (simp_all add: uf pauseBranch_eq)
  have same: "hasPrimedRef s \<longrightarrow> transforms (useFrame False c s) = transforms s"
    by (simp add: uf transforms_def primeScene_primed)
  have prime: "\<not> hasPrimedRef s \<longrightarrow>
        map_option position (cakeGroup (useFrame False c s)) = Some (vec 0 CAKE_START_Y 0) \<and>
        map_option rotation (cakeGroup (useFrame False c s)) = Some (vec 0 0 0) \<and>
        map_option position (tableGroup (useFrame False c s)) = Some (vec 0 0 TABLE_START_Z) \<and>
        map_option rotation (tableGroup (useFrame False c s)) = Some (vec 0 0 0) \<and>
        map_option position (candleGroup (useFrame False c s)) = Some (vec 0 CANDLE_START_Y 0) \<and>
        map_option visible (candleGroup (useFrame False c s)) = Some False"
    using g by (simp add: uf segment_defs)
  show ?thesis
    using t(2,3) refs same prime unfolding tc by blast
qed

theorem paused_frame_resets_signals_witness:
  "mounted (playFrames [0, 39 / 10] initialController) \<and>
   hasPrimedRef (playFrames [0, 39 / 10] initialController) \<and>
   emitted (tickCalls False 4 (playFrames [0, 39 / 10] initialController)) =
     [EmitBackgroundOpacity 1, EmitEnvironmentProgress 0] \<and>
   animationStartRef (useFrame False 4 (playFrames [0, 39 / 10] initialController)) = None \<and>
   transforms (useFrame False 4 (playFrames [0, 39 / 10] initialController)) =
     transforms (playFrames [0, 39 / 10] initialController) \<and>
   mounted initialController \<and> \<not> hasPrimedRef initialController \<and>
   map_option position (cakeGroup (useFrame False 0 initialController)) =
     Some (vec 0 CAKE_START_Y 0) \<and>
   map_option visible (candleGroup (useFrame False 0 initialController)) = Some False"
proof -
  have s: "playFrames [0, 39 / 10] initialController =
      useFrame True (39 / 10) (useFrame True 0 initialController)"
    by (simp add: playFrames_def)
  have h: "mounted (playFrames [0, 39 / 10] initialController)"
    "hasPrimedRef (playFrames [0, 39 / 10] initialController)"
    unfolding s frame2 by (simp_all add: mounted_def)
  have i: "mounted initialController" "\<not> hasPrimedRef initialController"
    by (simp_all add: mounted_def initialController_def)
  show ?thesis
    using h i paused_frame_resets_signals [OF h(1), of 4]
      paused_frame_resets_signals [OF i(1), of 0]
    by blast
qed

text \<open>
  The claim as stated fails on the first frame: with \<open>isPlaying\<close> false it moves the
  cake from the pose it was mounted in to the start pose and hides the candle.
\<close>

theorem paused_frame_primes_counterexample:
  "\<not> hasPrimedRef initialController \<and>
   map_option (vy \<circ> position) (cakeGroup initialController) = Some 0 \<and>
   map_option (vy \<circ> position) (cakeGroup (useFrame False 0 initialController)) = Some 10 \<and>
   map_option visible (candleGroup initialController) = Some True \<and>
   map_option visible (candleGroup (useFrame False 0 initialController)) = Some False \<and>
   transforms (useFrame False 0 initialController) \<noteq> transforms initialController"
  by (simp add: initialController_def defaultGroup_def transforms_def frame_eval)

section \<open>One completion per play session\<close>

lemma playFrames_Cons: "playFrames (c # clocks) s = playFrames clocks (useFrame True c s)"
  by (simp add: playFrames_def)

lemma completions_playing_frame:
  assumes "mounted s" "consistent s" "\<not> hasCompletedRef s"
  shows "completions (calls (useFrame True c s)) =
     completions (calls s) + (if hasCompletedRef (useFrame True c s) then 1 else 0)"
proof -
  have nn: "\<not> completionNotifiedRef s"
    using assms(2,3) by (simp add: consistent_def)
  obtain t where t: "calls (useFrame True c s) = calls s @ t"
    "completions t =
         (if clampedElapsedAt c s \<ge> totalAnimationTime \<and> \<not> completionNotifiedRef s
          then 1 else 0)"
    using calls_playing_frame [OF assms(1,3)] by blast
  show ?thesis
    using nn by (simp add: t hasCompletedRef_playing_frame [OF assms(1,3)])
qed

lemma completions_playFrames:
  assumes "mounted s" "consistent s"
  shows "completions (calls (playFrames clocks s)) =
     completions (calls s) +
       (if hasCompletedRef (playFrames clocks s) \<and> \<not> hasCompletedRef s then 1 else 0)"
  using assms
proof (induction clocks arbitrary: s)
  case Nil
  then show ?case by (simp add: playFrames_def)
next
  case (Cons c clocks)
  let ?s1 = "useFrame True c s"
  have m1: "mounted ?s1" "consistent ?s1"
    using Cons.prems by (simp_all add: mounted_useFrame consistent_useFrame)
  note ih = Cons.IH [OF m1]
  show ?case
  proof (cases "hasCompletedRef s")
    case True
    then show ?thesis
      using Cons.prems by (simp add: completed_playFrames completions_def)
  next
    case False
    note step = completions_playing_frame [OF Cons.prems False, of c]
    show ?thesis
    proof (cases "hasCompletedRef ?s1")
      case True
      then have "hasCompletedRef (playFrames clocks ?s1)"
        using m1 by (simp add: completed_playFrames)
      then show ?thesis
        using ih step True False by (simp add: playFrames_Cons)
    next
      case nc: False
      then show ?thesis
        using ih step False by (simp add: playFrames_Cons)
    qed
  qed
qed

text \<open>
  Claim C2. In a run of playing frames on a mounted controller, from a reachable state
  that has not completed, the completion callback is called once if the run completes
  and not at all otherwise. Once a frame has
  reached the total duration, any number of later playing frames add no further call of
  it and write no transform: each of them only hands 0 to the opacity emit and 1 to the
  progress emit, and neither reaches a consumer.
\<close>

theorem completion_fires_once_per_session:
  assumes "mounted s" and "consistent s" and "\<not> hasCompletedRef s"
  shows "completions (calls (playFrames clocks s)) =
       completions (calls s) + (if hasCompletedRef (playFrames clocks s) then 1 else 0) \<and>
     (clampedElapsedAt c s \<ge> totalAnimationTime \<longrightarrow>
        hasCompletedRef (playFrames (c # later) s) \<and>
        completions (calls (playFrames (c # later) s)) = completions (calls s) + 1 \<and>
        transforms (playFrames (c # later) s) = transforms (useFrame True c s) \<and>
        calls (playFrames (c # later) s) =
          calls (useFrame True c s) @
          concat (replicate (length later)
            [EmitBackgroundOpacity 0, EmitEnvironmentProgress 1]))"
proof -
  have a: "completions (calls (playFrames clocks s)) =
       completions (calls s) + (if hasCompletedRef (playFrames clocks s) then 1 else 0)"
    using assms(3) by (simp add: completions_playFrames [OF assms(1,2)])
  have b: "hasCompletedRef (playFrames (c # later) s) \<and>
        completions (calls (playFrames (c # later) s)) = completions (calls s) + 1 \<and>
        transforms (playFrames (c # later) s) = transforms (useFrame True c s) \<and>
        calls (playFrames (c # later) s) =
          calls (useFrame True c s) @
          concat (replicate (length later)
            [EmitBackgroundOpacity 0, EmitEnvironmentProgress 1])"
    if e: "clampedElapsedAt c s \<ge> totalAnimationTime"
  proof -
    let ?s1 = "useFrame True c s"
    have m1: "mounted ?s1" "consistent ?s1" "hasCompletedRef ?s1"
      using assms e
      by (simp_all add: mounted_useFrame consistent_useFrame hasCompletedRef_playing_frame)
    have pf: "playFrames (c # later) s =
        ?s1\<lparr>calls := calls ?s1 @ concat (replicate (length later)
            [EmitBackgroundOpacity 0, EmitEnvironmentProgress 1])\<rparr>"
      by (simp add: playFrames_Cons completed_playFrames [OF m1])
    have hc: "hasCompletedRef (playFrames (c # later) s)"
      using m1(3) by (simp add: pf)
    have "completions (calls (playFrames (c # later) s)) =
       completions (calls s) + (if hasCompletedRef (playFrames (c # later) s) then 1 else 0)"
      using assms(3) by (simp add: completions_playFrames [OF assms(1,2)])
    then have co: "completions (calls (playFrames (c # later) s)) = completions (calls s) + 1"
      using hc by simp
    have tr: "transforms (playFrames (c # later) s) = transforms ?s1"
      by (simp add: pf transforms_def)
    have ca: "calls (playFrames (c # later) s) =
          calls ?s1 @ concat (replicate (length later)
            [EmitBackgroundOpacity 0, EmitEnvironmentProgress 1])"
      by (simp add: pf)
    show ?thesis
      using hc co tr ca by blast
  qed
  show ?thesis
    using a b by blast
qed

theorem completion_fires_once_per_session_witness:
  "mounted (useFrame True 0 initialController) \<and>
   consistent (useFrame True 0 initialController) \<and>
   \<not> hasCompletedRef (useFrame True 0 initialController) \<and>
   clampedElapsedAt 6 (useFrame True 0 initialController) \<ge> totalAnimationTime \<and>
   hasCompletedRef (playFrames [6, 7, 8] (useFrame True 0 initialController)) \<and>
   completions (calls (playFrames [6, 7, 8] (useFrame True 0 initialController))) =
     completions (calls (useFrame True 0 initialController)) + 1 \<and>
   transforms (playFrames [6, 7, 8] (useFrame True 0 initialController)) =
     transforms (useFrame True 6 (useFrame True 0 initialController)) \<and>
   calls (playFrames [6, 7, 8] (useFrame True 0 initialController)) =
     calls (useFrame True 6 (useFrame True 0 initialController)) @
     concat (replicate (length [7, 8 :: real])
       [EmitBackgroundOpacity 0, EmitEnvironmentProgress 1])"
proof -
  have h: "mounted (useFrame True 0 initialController)"
    "consistent (useFrame True 0 initialController)"
    "\<not> hasCompletedRef (useFrame True 0 initialController)"
    unfolding frame1 by (simp_all add: mounted_def consistent_def)
  have e: "clampedElapsedAt 6 (useFrame True 0 initialController) \<ge> totalAnimationTime"
    unfolding frame1 by (simp add: clampedElapsedAt_def clamp_def constant_values)
  show ?thesis
    using h e completion_fires_once_per_session [OF h, of "[6, 7, 8]" 6 "[7, 8]"]
    by blast
qed

section \<open>Complementary signals\<close>

lemma fadeOpacity_values:
  "e < BACKGROUND_FADE_START \<Longrightarrow> fadeOpacity e = 1"
  "BACKGROUND_FADE_START \<le> e \<Longrightarrow>
     fadeOpacity e = 1 - easeOutCubic
        (clamp ((e - BACKGROUND_FADE_START) / BACKGROUND_FADE_DURATION) 0 1)"
  "totalAnimationTime \<le> e \<Longrightarrow> fadeOpacity e = 0"
  by (simp_all add: fadeOpacity_def constant_values BACKGROUND_FADE_DURATION_def
      clamp_def easeOutCubic_def)

text \<open>
  Claim C4. On a playing frame that has not completed the pair handed to the two emit
  functions sums to 1: it is (1, 0) before the fade window, (1 - eased, eased) from the
  start of the window on, and (0, 1) once the clamped elapsed time has reached the total
  duration, where the frame hands on (0, 1) a second time; a completed playing frame hands
  on (0, 1). The stored pair of last-emitted values sums to 1 after every run of frames
  from the initial refs, and after every run from a reachable state.
\<close>

theorem signals_complementary:
  "(mounted s \<and> \<not> hasCompletedRef s \<longrightarrow>
      (\<exists>opacity progress.
         emitted (tickCalls True c s) =
           [EmitBackgroundOpacity opacity, EmitEnvironmentProgress progress] @
           (if clampedElapsedAt c s \<ge> totalAnimationTime
            then [EmitBackgroundOpacity 0, EmitEnvironmentProgress 1] else []) \<and>
         opacity + progress = 1 \<and>
         (clampedElapsedAt c s < BACKGROUND_FADE_START \<longrightarrow> opacity = 1 \<and> progress = 0) \<and>
         (BACKGROUND_FADE_START \<le> clampedElapsedAt c s \<longrightarrow>
            progress = easeOutCubic (clamp ((clampedElapsedAt c s - BACKGROUND_FADE_START)
                          / BACKGROUND_FADE_DURATION) 0 1) \<and>
            opacity = 1 - progress) \<and>
         (totalAnimationTime \<le> clampedElapsedAt c s \<longrightarrow> opacity = 0 \<and> progress = 1))) \<and>
   (mounted s \<and> hasCompletedRef s \<longrightarrow>
      emitted (tickCalls True c s) = [EmitBackgroundOpacity 0, EmitEnvironmentProgress 1]) \<and>
   (consistent s \<longrightarrow>
      backgroundOpacityRef (runFrames ticks s) + environmentProgressRef (runFrames ticks s) = 1) \<and>
   backgroundOpacityRef
     (runFrames ticks
        (initialController\<lparr>cakeGroup := cake, tableGroup := table, candleGroup := candle\<rparr>)) +
   environmentProgressRef
     (runFrames ticks
        (initialController\<lparr>cakeGroup := cake, tableGroup := table, candleGroup := candle\<rparr>)) = 1"
proof -
  have a: "\<exists>opacity progress.
         emitted (tickCalls True c s) =
           [EmitBackgroundOpacity opacity, EmitEnvironmentProgress progress] @
           (if clampedElapsedAt c s \<ge> totalAnimationTime
            then [EmitBackgroundOpacity 0, EmitEnvironmentProgress 1] else []) \<and>
         opacity + progress = 1 \<and>
         (clampedElapsedAt c s < BACKGROUND_FADE_START \<longrightarrow> opacity = 1 \<and> progress = 0) \<and>
         (BACKGROUND_FADE_START \<le> clampedElapsedAt c s \<longrightarrow>
            progress = easeOutCubic (clamp ((clampedElapsedAt c s - BACKGROUND_FADE_START)
                          / BACKGROUND_FADE_DURATION) 0 1) \<and>
            opacity = 1 - progress) \<and>
         (totalAnimationTime \<le> clampedElapsedAt c s \<longrightarrow> opacity = 0 \<and> progress = 1)"
    if m: "mounted s" "\<not> hasCompletedRef s"
  proof -
    define e where "e = clampedElapsedAt c s"
    obtain t where t: "calls (useFrame True c s) = calls s @ t"
      "emitted t =
         [EmitBackgroundOpacity (fadeOpacity e), EmitEnvironmentProgress (1 - fadeOpacity e)] @
         (if e \<ge> totalAnimationTime
          then [EmitBackgroundOpacity 0, EmitEnvironmentProgress 1] else [])"
      using calls_playing_frame [OF m, of c] unfolding e_def by blast
    have tc: "tickCalls True c s = t"
      using t(1) by (rule tickCalls_eq)
    have "emitted (tickCalls True c s) =
           [EmitBackgroundOpacity (fadeOpacity e), EmitEnvironmentProgress (1 - fadeOpacity e)] @
           (if e \<ge> totalAnimationTime
            then [EmitBackgroundOpacity 0, EmitEnvironmentProgress 1] else [])"
      "fadeOpacity e + (1 - fadeOpacity e) = 1"
      "e < BACKGROUND_FADE_START \<longrightarrow> fadeOpacity e = 1 \<and> 1 - fadeOpacity e = 0"
      "BACKGROUND_FADE_START \<le> e \<longrightarrow>
         1 - fadeOpacity e = easeOutCubic (clamp ((e - BACKGROUND_FADE_START)
                          / BACKGROUND_FADE_DURATION) 0 1) \<and>
         fadeOpacity e = 1 - (1 - fadeOpacity e)"
      "totalAnimationTime \<le> e \<longrightarrow> fadeOpacity e = 0 \<and> 1 - fadeOpacity e = 1"
      by (simp_all add: tc t(2) fadeOpacity_values)
    then show ?thesis
      unfolding e_def by blast
  qed
  have b: "emitted (tickCalls True c s) = [EmitBackgroundOpacity 0, EmitEnvironmentProgress 1]"
    if m: "mounted s" "hasCompletedRef s"
  proof -
    obtain t where t: "calls (completedBranch (primeScene s)) = calls (primeScene s) @ t"
      "emitted t = [EmitBackgroundOpacity 0, EmitEnvironmentProgress 1]"
      using calls_completedBranch by blast
    have "useFrame True c s = completedBranch (primeScene s)"
      using m by (simp add: useFrame_mounted)
    then have "tickCalls True c s = t"
      using t(1) by (intro tickCalls_eq) simp
    then show ?thesis by (simp add: t(2))
  qed
  have d: "backgroundOpacityRef (runFrames ticks s) + environmentProgressRef (runFrames ticks s) = 1"
    if "consistent s" for s
    using consistent_runFrames [OF that, of ticks] by (simp add: consistent_def)
  show ?thesis
    using a b d d [OF consistent_initial] by blast
qed

theorem signals_complementary_witness:
  "mounted (useFrame True 0 initialController) \<and>
   \<not> hasCompletedRef (useFrame True 0 initialController) \<and>
   BACKGROUND_FADE_START \<le> clampedElapsedAt (7 / 2) (useFrame True 0 initialController) \<and>
   emitted (tickCalls True (7 / 2) (useFrame True 0 initialController)) =
     [EmitBackgroundOpacity (1 / 8), EmitEnvironmentProgress (7 / 8)] \<and>
   consistent (useFrame True 0 initialController) \<and>
   backgroundOpacityRef (runFrames [(True, 7 / 2), (False, 4)] (useFrame True 0 initialController)) +
   environmentProgressRef (runFrames [(True, 7 / 2), (False, 4)] (useFrame True 0 initialController))
     = 1 \<and>
   mounted (playFrames [0, 39 / 10, 52 / 10] initialController) \<and>
   hasCompletedRef (playFrames [0, 39 / 10, 52 / 10] initialController) \<and>
   emitted (tickCalls True 6 (playFrames [0, 39 / 10, 52 / 10] initialController)) =
     [EmitBackgroundOpacity 0, EmitEnvironmentProgress 1]"
proof -
  have h: "mounted (useFrame True 0 initialController)"
    "\<not> hasCompletedRef (useFrame True 0 initialController)"
    "consistent (useFrame True 0 initialController)"
    unfolding frame1 by (simp_all add: mounted_def consistent_def)
  have e: "clampedElapsedAt (7 / 2) (useFrame True 0 initialController) = 7 / 2"
    unfolding frame1 by (simp add: clampedElapsedAt_def clamp_def constant_values)
  have k: "mounted (playFrames [0, 39 / 10, 52 / 10] initialController)"
    "hasCompletedRef (playFrames [0, 39 / 10, 52 / 10] initialController)"
    unfolding frame3 by (simp_all add: mounted_def)
  have v: "easeOutCubic (clamp ((7 / 2 - BACKGROUND_FADE_START) / BACKGROUND_FADE_DURATION) 0 1)
      = 7 / 8"
    by (simp add: constant_values BACKGROUND_FADE_DURATION_def clamp_def easeOutCubic_def
        power3_eq_cube)
  have w: "BACKGROUND_FADE_START \<le> (7 / 2 :: real)" "\<not> totalAnimationTime \<le> (7 / 2 :: real)"
    by (simp_all add: constant_values)
  show ?thesis
    using h k w v
      signals_complementary [of "useFrame True 0 initialController" "7 / 2"
        "[(True, 7 / 2), (False, 4)]"]
      signals_complementary [of "playFrames [0, 39 / 10, 52 / 10] initialController" 6]
    by (auto simp add: e)
qed

section \<open>The typed-text intro\<close>

declare nextLine.simps [simp del]

lemma nextLine_ge: "n \<le> nextLine lines n"
proof (induction lines n rule: nextLine.induct)
  case (1 lines n)
  show ?case
  proof (cases "n < length lines \<and> length (lines ! n) = 0")
    case True
    with "1.IH" have "n + 1 \<le> nextLine lines (n + 1)" by simp
    then show ?thesis
      using True by (subst nextLine.simps) simp
  next
    case False
    then show ?thesis by (subst nextLine.simps) auto
  qed
qed

lemma nextLine_le: "n \<le> length lines \<Longrightarrow> nextLine lines n \<le> length lines"
proof (induction lines n rule: nextLine.induct)
  case (1 lines n)
  show ?case
  proof (cases "n < length lines \<and> length (lines ! n) = 0")
    case True
    with "1.IH" have "nextLine lines (n + 1) \<le> length lines" by simp
    then show ?thesis
      using True by (subst nextLine.simps) simp
  next
    case False
    then show ?thesis
      using "1.prems" by (subst nextLine.simps) auto
  qed
qed

lemma nextLine_skipped:
  "n \<le> k \<Longrightarrow> k < nextLine lines n \<Longrightarrow> lines ! k = []"
proof (induction lines n rule: nextLine.induct)
  case (1 lines n)
  show ?case
  proof (cases "n < length lines \<and> length (lines ! n) = 0")
    case True
    then have eq: "nextLine lines n = nextLine lines (n + 1)"
      by (subst nextLine.simps) simp
    show ?thesis
    proof (cases "k = n")
      case True
      then show ?thesis using \<open>n < length lines \<and> length (lines ! n) = 0\<close> by simp
    next
      case False
      then have "n + 1 \<le> k" using "1.prems"(1) by simp
      moreover have "k < nextLine lines (n + 1)" using "1.prems"(2) eq by simp
      ultimately show ?thesis using "1.IH" True by simp
    qed
  next
    case False
    then have "nextLine lines n = n"
      by (subst nextLine.simps) auto
    then show ?thesis using "1.prems" by simp
  qed
qed

lemma nextLine_nonempty:
  "nextLine lines n < length lines \<Longrightarrow> lines ! nextLine lines n \<noteq> []"
proof (induction lines n rule: nextLine.induct)
  case (1 lines n)
  show ?case
  proof (cases "n < length lines \<and> length (lines ! n) = 0")
    case True
    then have eq: "nextLine lines n = nextLine lines (n + 1)"
      by (subst nextLine.simps) simp
    then show ?thesis using "1.IH" "1.prems" True by simp
  next
    case False
    then have eq: "nextLine lines n = n"
      by (subst nextLine.simps) auto
    then show ?thesis using "1.prems" False by simp
  qed
qed

text \<open>
  Claim C9. When the typing timer fires on a line that is fully revealed, the sequencer
  moves straight to the next line of non-zero length, with every line passed over being
  empty, or to the end of the lines when none is left, which is typing complete. With the
  lines "A", "", "B" the states are line 0 with 0 and 1 characters, then line 2 with 0 and
  1 characters, then complete: the cursor is never on line 1.
\<close>

theorem typing_skips_empty_lines:
  assumes "hasStarted st" and "currentLineIndex st < length lines"
    and "length (lines ! currentLineIndex st) \<le> currentCharIndex st"
  shows "currentLineIndex st < currentLineIndex (typingStep lines st) \<and>
     currentLineIndex (typingStep lines st) \<le> length lines \<and>
     currentCharIndex (typingStep lines st) = 0 \<and>
     (\<forall>k. currentLineIndex st < k \<and> k < currentLineIndex (typingStep lines st)
          \<longrightarrow> lines ! k = []) \<and>
     (currentLineIndex (typingStep lines st) < length lines \<longrightarrow>
        lines ! currentLineIndex (typingStep lines st) \<noteq> []) \<and>
     (typingComplete lines (typingStep lines st) \<longleftrightarrow>
        (\<forall>k. currentLineIndex st < k \<and> k < length lines \<longrightarrow> lines ! k = []))"
proof -
  define n where "n = nextLine lines (currentLineIndex st + 1)"
  have step: "typingStep lines st = st\<lparr>currentLineIndex := n, currentCharIndex := 0\<rparr>"
    using assms by (simp add: typingStep_def typingComplete_def typingTimeout_def n_def)
  have gt: "currentLineIndex st < n"
    using nextLine_ge [of "currentLineIndex st + 1" lines] by (simp add: n_def)
  have le: "n \<le> length lines"
    unfolding n_def using assms(2) by (intro nextLine_le) simp
  have skipped: "lines ! k = []" if "currentLineIndex st < k" "k < n" for k
    using that nextLine_skipped [of "currentLineIndex st + 1" k lines] by (simp add: n_def)
  have nonempty: "n < length lines \<longrightarrow> lines ! n \<noteq> []"
    unfolding n_def using nextLine_nonempty by blast
  have complete: "typingComplete lines (typingStep lines st) \<longleftrightarrow>
        (\<forall>k. currentLineIndex st < k \<and> k < length lines \<longrightarrow> lines ! k = [])"
  proof
    assume "typingComplete lines (typingStep lines st)"
    then have "n = length lines"
      using le by (simp add: step typingComplete_def)
    then show "\<forall>k. currentLineIndex st < k \<and> k < length lines \<longrightarrow> lines ! k = []"
      using skipped by simp
  next
    assume all: "\<forall>k. currentLineIndex st < k \<and> k < length lines \<longrightarrow> lines ! k = []"
    have "\<not> n < length lines"
    proof
      assume "n < length lines"
      then show False using all gt nonempty by blast
    qed
    then show "typingComplete lines (typingStep lines st)"
      by (simp add: step typingComplete_def)
  qed
  show ?thesis
    using gt le skipped nonempty complete by (simp add: step)
qed

theorem typing_skips_empty_lines_witness:
  "hasStarted (iterate 1 (typingStep [''A'', '''', ''B''])
      \<lparr>hasStarted = True, currentLineIndex = 0, currentCharIndex = 0,
       sceneStarted = False, typingSounds = 0\<rparr>) \<and>
   map (\<lambda>n. let st = iterate n (typingStep [''A'', '''', ''B''])
                 \<lparr>hasStarted = True, currentLineIndex = 0, currentCharIndex = 0,
                  sceneStarted = False, typingSounds = 0\<rparr>
             in (currentLineIndex st, currentCharIndex st,
                 typedLines [''A'', '''', ''B''] st, cursorTargetIndex [''A'', '''', ''B''] st,
                 typingComplete [''A'', '''', ''B''] st))
     [0, 1, 2, 3, 4] =
     [(0, 0, ['''', '''', ''''], 0, False),
      (0, 1, [''A'', '''', ''''], 0, False),
      (2, 0, [''A'', '''', ''''], 2, False),
      (2, 1, [''A'', '''', ''B''], 2, False),
      (3, 0, [''A'', '''', ''B''], 2, True)] \<and>
   currentLineIndex (iterate 1 (typingStep [''A'', '''', ''B''])
      \<lparr>hasStarted = True, currentLineIndex = 0, currentCharIndex = 0,
       sceneStarted = False, typingSounds = 0\<rparr>)
   < currentLineIndex (typingStep [''A'', '''', ''B'']
       (iterate 1 (typingStep [''A'', '''', ''B''])
      \<lparr>hasStarted = True, currentLineIndex = 0, currentCharIndex = 0,
       sceneStarted = False, typingSounds = 0\<rparr>)) \<and>
   [''A'', '''', ''B''] ! currentLineIndex (typingStep [''A'', '''', ''B'']
       (iterate 1 (typingStep [''A'', '''', ''B''])
      \<lparr>hasStarted = True, currentLineIndex = 0, currentCharIndex = 0,
       sceneStarted = False, typingSounds = 0\<rparr>)) = ''B''"
proof -
  define st0 where "st0 = \<lparr>hasStarted = True, currentLineIndex = 0, currentCharIndex = 0,
       sceneStarted = False, typingSounds = 0\<rparr>"
  define L where "L = [''A'', '''', ''B'']"
  have s1: "iterate 1 (typingStep L) st0 = st0\<lparr>typingSounds := 1, currentCharIndex := 1\<rparr>"
    by (simp add: st0_def L_def typingStep_def typingComplete_def typingTimeout_def)
  have h: "hasStarted (iterate 1 (typingStep L) st0)"
    "currentLineIndex (iterate 1 (typingStep L) st0) < length L"
    "length (L ! currentLineIndex (iterate 1 (typingStep L) st0))
       \<le> currentCharIndex (iterate 1 (typingStep L) st0)"
    unfolding s1 by (simp_all add: st0_def L_def)
  have run: "map (\<lambda>n. let st = iterate n (typingStep L) st0
             in (currentLineIndex st, currentCharIndex st,
                 typedLines L st, cursorTargetIndex L st, typingComplete L st))
     [0, 1, 2, 3, 4] =
     [(0, 0, ['''', '''', ''''], 0, False),
      (0, 1, [''A'', '''', ''''], 0, False),
      (2, 0, [''A'', '''', ''''], 2, False),
      (2, 1, [''A'', '''', ''B''], 2, False),
      (3, 0, [''A'', '''', ''B''], 2, True)]"
    by (simp add: st0_def L_def typingStep_def typingComplete_def typingTimeout_def
        nextLine.simps typedLines_def cursorTargetIndex_def Let_def eval_nat_numeral upt_rec)
  have b: "L ! currentLineIndex (typingStep L (iterate 1 (typingStep L) st0)) = ''B''"
    unfolding s1
    by (simp add: st0_def L_def typingStep_def typingComplete_def typingTimeout_def
        nextLine.simps)
  show ?thesis
    using h(1) run b typing_skips_empty_lines [OF h]
    unfolding st0_def L_def by blast
qed

end
